theory Spec2Isabelle
  imports Main
begin

section \<open>Go strings\<close>

text \<open>
  A Go string is a sequence of bytes; \<^typ>\<open>string\<close> (a list of 8-bit characters) is the
  same thing. The functions of package \<open>strings\<close> that the repository calls are
  written out here.
\<close>

definition byte :: "char \<Rightarrow> nat" where
  "byte c = of_char c"

definition strings_HasPrefix :: "string \<Rightarrow> string \<Rightarrow> bool" where
  "strings_HasPrefix s prefix = (length prefix \<le> length s \<and> take (length prefix) s = prefix)"

fun strings_Contains :: "string \<Rightarrow> string \<Rightarrow> bool" where
  "strings_Contains [] substr = (substr = [])"
| "strings_Contains (c # cs) substr =
     (strings_HasPrefix (c # cs) substr \<or> strings_Contains cs substr)"

text \<open>
  \<open>strings.ToLower\<close>: a string of ASCII bytes only is lowered byte by byte. A string
  with a byte \<open>\<ge> 0x80\<close> goes through \<open>unicode.ToLower\<close> rune by rune; the Unicode
  tables are not part of the repository, so that branch is the parameter \<open>ul\<close>.
\<close>

definition isASCII :: "string \<Rightarrow> bool" where
  "isASCII s = list_all (\<lambda>c. byte c < 128) s"

definition lowerByte :: "char \<Rightarrow> char" where
  "lowerByte c = (if 65 \<le> byte c \<and> byte c \<le> 90 then char_of (byte c + 32) else c)"

definition strings_ToLower :: "(string \<Rightarrow> string) \<Rightarrow> string \<Rightarrow> string" where
  "strings_ToLower ul s = (if isASCII s then map lowerByte s else ul s)"

section \<open>Destination address (default port)\<close>

text \<open>
  \<open>utlsRoundTripper.RoundTrip\<close>, lines 122-125: the pool key and dial address computed
  from \<open>req.URL.Host\<close>.
\<close>

definition RoundTrip_addr :: "string \<Rightarrow> string" where
  "RoundTrip_addr host = (if \<not> strings_Contains host '':'' then host @ '':443'' else host)"

text \<open>\<open>Handler.handleConnect\<close>, lines 71-74: the tunnel target computed from \<open>r.Host\<close>.\<close>

definition handleConnect_targetAddr :: "string \<Rightarrow> string" where
  "handleConnect_targetAddr host =
     (if \<not> strings_Contains host '':'' then host @ '':443'' else host)"

text \<open>
  The port of a \<open>host[:port]\<close> string as Go's \<open>net/url\<close> reads it (\<open>URL.Port\<close>,
  function \<open>portOnly\<close>): the text after \<open>]:\<close> for a bracketed IPv6 literal, nothing
  for a bracketed literal with no \<open>]:\<close>, the text after the first colon otherwise.
\<close>

fun afterFirst :: "string \<Rightarrow> string \<Rightarrow> string option" where
  "afterFirst sep [] = (if sep = [] then Some [] else None)"
| "afterFirst sep (c # cs) =
     (if strings_HasPrefix (c # cs) sep then Some (drop (length sep) (c # cs))
      else afterFirst sep cs)"

definition portOnly :: "string \<Rightarrow> string" where
  "portOnly hostport =
     (case afterFirst '':'' hostport of
        None \<Rightarrow> []
      | Some rest \<Rightarrow>
          (case afterFirst '']:'' hostport of
             Some p \<Rightarrow> p
           | None \<Rightarrow> if strings_Contains hostport '']'' then [] else rest))"

section \<open>Fingerprint catalog\<close>

datatype ClientHelloID = HelloChrome_Auto | HelloFirefox_Auto | HelloIOS_Auto

record Fingerprint =
  ID :: ClientHelloID
  Name :: string
  UserAgent :: string

definition GetFingerprints :: "Fingerprint list" where
  "GetFingerprints =
     [\<lparr>ID = HelloChrome_Auto, Name = ''Chrome'',
        UserAgent = ''Mozilla/5.0 (Windows NT 10.0; Win64; x64) AppleWebKit/537.36 (KHTML, like Gecko) Chrome/120.0.0.0 Safari/537.36''\<rparr>,
      \<lparr>ID = HelloFirefox_Auto, Name = ''Firefox'',
        UserAgent = ''Mozilla/5.0 (Windows NT 10.0; Win64; x64; rv:121.0) Gecko/20100101 Firefox/121.0''\<rparr>,
      \<lparr>ID = HelloIOS_Auto, Name = ''Safari'',
        UserAgent = ''Mozilla/5.0 (iPhone; CPU iPhone OS 17_0 like Mac OS X) AppleWebKit/605.1.15 (KHTML, like Gecko) Version/17.0 Mobile/15E148 Safari/604.1''\<rparr>]"

text \<open>\<open>GetRandomFingerprint\<close> returns \<open>fps[0]\<close>; the catalog is never empty.\<close>

definition GetRandomFingerprint :: Fingerprint where
  "GetRandomFingerprint = GetFingerprints ! 0"

text \<open>The \<open>for ... range\<close> loop of \<open>findFingerprint\<close>: the first profile whose lowered name matches.\<close>

fun findLoop :: "(string \<Rightarrow> string) \<Rightarrow> string \<Rightarrow> Fingerprint list \<Rightarrow> Fingerprint option" where
  "findLoop ul name [] = None"
| "findLoop ul name (fp # fps) =
     (if strings_ToLower ul (Name fp) = name then Some fp else findLoop ul name fps)"

definition findFingerprint :: "(string \<Rightarrow> string) \<Rightarrow> string \<Rightarrow> Fingerprint" where
  "findFingerprint ul name =
     (if name = [] then GetRandomFingerprint
      else (case findLoop ul (strings_ToLower ul name) GetFingerprints of
              Some fp \<Rightarrow> fp
            | None \<Rightarrow> GetRandomFingerprint))"

text \<open>
  A name written in any letter case: the same length, and each byte equal to the
  catalog's byte up to the case of an ASCII letter.
\<close>

definition caseVariant :: "string \<Rightarrow> string \<Rightarrow> bool" where
  "caseVariant name known = list_all2 (\<lambda>a b. lowerByte a = lowerByte b) name known"

section \<open>HTTP headers and the hop-by-hop filter\<close>

text \<open>
  \<open>http.Header\<close> is \<open>map[string][]string\<close>. \<open>Header.Add\<close>, \<open>Header.Del\<close> and
  \<open>Header.Get\<close> canonicalise the key they are given with
  \<open>textproto.CanonicalMIMEHeaderKey\<close>: a key with a byte that is not a token byte is
  left as it is; otherwise the first letter and every letter after a dash is put in
  upper case and every other letter in lower case.
\<close>

type_synonym Header = "string \<rightharpoonup> string list"

definition isLower :: "char \<Rightarrow> bool" where
  "isLower c = (97 \<le> byte c \<and> byte c \<le> 122)"

definition isUpper :: "char \<Rightarrow> bool" where
  "isUpper c = (65 \<le> byte c \<and> byte c \<le> 90)"

definition isDigit :: "char \<Rightarrow> bool" where
  "isDigit c = (48 \<le> byte c \<and> byte c \<le> 57)"

definition validHeaderFieldByte :: "char \<Rightarrow> bool" where
  "validHeaderFieldByte c =
     (isLower c \<or> isUpper c \<or> isDigit c \<or> c \<in> set ''!#$%&*+-.^_`|~'' \<or> byte c = 39)"

fun canonLoop :: "bool \<Rightarrow> string \<Rightarrow> string" where
  "canonLoop upper [] = []"
| "canonLoop upper (c # cs) =
     (let c' = (if upper \<and> isLower c then char_of (byte c - 32)
                else if \<not> upper \<and> isUpper c then char_of (byte c + 32)
                else c)
      in c' # canonLoop (c' = CHR ''-'') cs)"

definition CanonicalMIMEHeaderKey :: "string \<Rightarrow> string" where
  "CanonicalMIMEHeaderKey s = (if list_all validHeaderFieldByte s then canonLoop True s else s)"

text \<open>\<open>Header.Values\<close>: all values stored under a key, none for an absent key.\<close>

definition Header_Values :: "Header \<Rightarrow> string \<Rightarrow> string list" where
  "Header_Values h key = (case h (CanonicalMIMEHeaderKey key) of None \<Rightarrow> [] | Some vs \<Rightarrow> vs)"

text \<open>\<open>Header.Get\<close>: the first value stored under a key, the empty string when there is none.\<close>

definition Header_Get :: "Header \<Rightarrow> string \<Rightarrow> string" where
  "Header_Get h key =
     (case h (CanonicalMIMEHeaderKey key) of None \<Rightarrow> [] | Some [] \<Rightarrow> [] | Some (v # _) \<Rightarrow> v)"

definition Header_Add :: "Header \<Rightarrow> string \<Rightarrow> string \<Rightarrow> Header" where
  "Header_Add h key val =
     (let k = CanonicalMIMEHeaderKey key
      in h(k \<mapsto> (case h k of None \<Rightarrow> [] | Some vs \<Rightarrow> vs) @ [val]))"

definition Header_Del :: "Header \<Rightarrow> string \<Rightarrow> Header" where
  "Header_Del h key = h(CanonicalMIMEHeaderKey key := None)"

definition Header_Set :: "Header \<Rightarrow> string \<Rightarrow> string \<Rightarrow> Header" where
  "Header_Set h key val = h(CanonicalMIMEHeaderKey key \<mapsto> [val])"

text \<open>The map literal \<open>hopByHop\<close> of \<open>copyHeaders\<close>; a key absent from it reads as \<open>false\<close>.\<close>

definition hopByHop :: "string \<Rightarrow> bool" where
  "hopByHop key =
     (key \<in> set [''Connection'', ''Keep-Alive'', ''Proxy-Authenticate'', ''Proxy-Authorization'',
                 ''Proxy-Connection'', ''Te'', ''Trailer'', ''Transfer-Encoding'', ''Upgrade''])"

text \<open>
  \<open>copyHeaders\<close>. The source map is given as the list of its entries in the order the
  \<open>range\<close> loop visits them (Go leaves that order open, so every order is a possible
  input); the destination is updated entry by entry, value by value.
\<close>

fun addValues :: "Header \<Rightarrow> string \<Rightarrow> string list \<Rightarrow> Header" where
  "addValues dst key [] = dst"
| "addValues dst key (v # vs) = addValues (Header_Add dst key v) key vs"

fun copyHeaders :: "Header \<Rightarrow> (string \<times> string list) list \<Rightarrow> Header" where
  "copyHeaders dst [] = dst"
| "copyHeaders dst ((key, vals) # rest) =
     (if hopByHop key then copyHeaders dst rest
      else copyHeaders (addValues dst key vals) rest)"

text \<open>
  The headers of the outbound request in \<open>Handler.handleHTTP\<close> (lines 209-212): a fresh
  request has no headers; the inbound ones are copied, then two keys are deleted.
\<close>

definition handleHTTP_outHeader :: "(string \<times> string list) list \<Rightarrow> Header" where
  "handleHTTP_outHeader inHeader =
     Header_Del (Header_Del (copyHeaders Map.empty inHeader) ''Proxy-Connection'')
       ''Proxy-Authorization''"

text \<open>
  The headers of the relayed response (line 222): the upstream response's headers are
  copied into the response writer's header map.
\<close>

definition handleHTTP_respHeader :: "Header \<Rightarrow> (string \<times> string list) list \<Rightarrow> Header" where
  "handleHTTP_respHeader wHeader respHeader = copyHeaders wHeader respHeader"

text \<open>
  A header map as \<open>net/http\<close> builds it when it parses a message: keys are distinct (it
  is a map) and already canonical.
\<close>

definition parsedHeader :: "(string \<times> string list) list \<Rightarrow> bool" where
  "parsedHeader h =
     (distinct (map fst h) \<and> list_all (\<lambda>(k, vs). CanonicalMIMEHeaderKey k = k) h)"

definition entryValues :: "(string \<times> string list) list \<Rightarrow> string \<Rightarrow> string list" where
  "entryValues h key = (case map_of h key of None \<Rightarrow> [] | Some vs \<Rightarrow> vs)"

section \<open>Proxy authentication\<close>

subsection \<open>\<open>encoding/base64\<close>, \<open>StdEncoding\<close>\<close>

text \<open>
  The standard alphabet with padding, as the Go library implements it.
  \<open>EncodeToString\<close> turns each group of three bytes into four alphabet characters and
  pads a last group of one or two bytes with \<open>=\<close>.
\<close>

definition encodeStd :: string where
  "encodeStd = ''ABCDEFGHIJKLMNOPQRSTUVWXYZabcdefghijklmnopqrstuvwxyz0123456789+/''"

definition padChar :: char where
  "padChar = CHR ''=''"

definition sextets :: "nat \<Rightarrow> nat list" where
  "sextets val = [val div 262144, val div 4096 mod 64, val div 64 mod 64, val mod 64]"

fun EncodeToString :: "string \<Rightarrow> string" where
  "EncodeToString (a # b # c # rest) =
     map ((!) encodeStd) (sextets (byte a * 65536 + byte b * 256 + byte c))
       @ EncodeToString rest"
| "EncodeToString [a, b] =
     map ((!) encodeStd) (take 3 (sextets (byte a * 65536 + byte b * 256))) @ [padChar]"
| "EncodeToString [a] =
     map ((!) encodeStd) (take 2 (sextets (byte a * 65536))) @ [padChar, padChar]"
| "EncodeToString [] = []"

text \<open>
  \<open>DecodeString\<close>. The decoder looks each character up in the table built from the
  alphabet, skips every carriage return and line feed wherever it stands, and reads
  groups of four: four alphabet characters give three bytes; two alphabet characters and
  \<open>==\<close>, or three and \<open>=\<close>, give one or two bytes and must end the input. Anything else
  is a \<open>CorruptInputError\<close> (\<open>None\<close>). \<open>StdEncoding\<close> is not strict: the unused low
  bits of the last character before the padding are not checked.
\<close>

definition decodeMap :: "char \<Rightarrow> nat option" where
  "decodeMap c = map_of (zip encodeStd [0..<64]) c"

definition assemble :: "nat \<Rightarrow> nat \<Rightarrow> nat \<Rightarrow> nat \<Rightarrow> string" where
  "assemble d0 d1 d2 d3 =
     (let val = d0 * 262144 + d1 * 4096 + d2 * 64 + d3
      in [char_of (val div 65536), char_of (val div 256 mod 256), char_of (val mod 256)])"

fun decodeQuanta :: "string \<Rightarrow> string option" where
  "decodeQuanta (c0 # c1 # c2 # c3 # rest) =
     (case decodeMap c0 of
        None \<Rightarrow> None
      | Some d0 \<Rightarrow>
     (case decodeMap c1 of
        None \<Rightarrow> None
      | Some d1 \<Rightarrow>
     (case decodeMap c2 of
        None \<Rightarrow>
          if c2 = padChar \<and> c3 = padChar \<and> rest = []
          then Some (take 1 (assemble d0 d1 0 0)) else None
      | Some d2 \<Rightarrow>
     (case decodeMap c3 of
        None \<Rightarrow>
          if c3 = padChar \<and> rest = []
          then Some (take 2 (assemble d0 d1 d2 0)) else None
      | Some d3 \<Rightarrow>
          (case decodeQuanta rest of
             None \<Rightarrow> None
           | Some bytes \<Rightarrow> Some (assemble d0 d1 d2 d3 @ bytes))))))"
| "decodeQuanta [] = Some []"
| "decodeQuanta _ = None"

definition isNewline :: "char \<Rightarrow> bool" where
  "isNewline c = (byte c = 10 \<or> byte c = 13)"

definition DecodeString :: "string \<Rightarrow> string option" where
  "DecodeString s = decodeQuanta (filter (\<lambda>c. \<not> isNewline c) s)"

subsection \<open>\<open>SimpleAuth\<close>\<close>

text \<open>\<open>strings.SplitN(s, sep, 2)\<close> for a one-byte separator: split at its first occurrence.\<close>

definition SplitN2 :: "string \<Rightarrow> char \<Rightarrow> string list" where
  "SplitN2 s sep =
     (if sep \<in> set s
      then [takeWhile (\<lambda>c. c \<noteq> sep) s, tl (dropWhile (\<lambda>c. c \<noteq> sep) s)]
      else [s])"

text \<open>
  The inbound request, as far as the handlers read it: the method, the scheme of the
  request URL (\<open>URL.IsAbs\<close> is "the scheme is not empty"), the host of the URL, the
  \<open>Host\<close> field and the headers.
\<close>

record Request =
  Method :: string
  URL_Scheme :: string
  URL_Host :: string
  Host :: string
  Header :: Header

text \<open>\<open>SimpleAuth.ValidateProxyAuth\<close>; the receiver's only field is the token.\<close>

definition ValidateProxyAuth :: "string \<Rightarrow> Request \<Rightarrow> bool" where
  "ValidateProxyAuth token r =
     (let proxyAuth = Header_Get (Header r) ''Proxy-Authorization'' in
      if proxyAuth = [] then False
      else if \<not> strings_HasPrefix proxyAuth ''Basic '' then False
      else (case DecodeString (drop 6 proxyAuth) of
              None \<Rightarrow> False
            | Some decoded \<Rightarrow>
                (let parts = SplitN2 decoded (CHR '':'') in
                 if length parts \<noteq> 2 then False
                 else parts ! 1 = token)))"

section \<open>Transport: the uTLS round tripper\<close>

text \<open>
  Connections and HTTP/2 sessions are handles. What the network and the libraries
  answer is the environment \<open>Net\<close>; every call the round tripper makes to them is
  appended to a trace, so that "a handshake happened" or "the connection was closed"
  can be read off the result.
\<close>

type_synonym ConnId = nat

datatype Event =
    EvPlainRoundTrip
  | EvDial string
  | EvHandshake ConnId
  | EvClose ConnId
  | EvNewClientConn ConnId
  | EvH2RoundTrip ConnId
  | EvH1RoundTrip ConnId

datatype HandshakeCause = HandshakeRejected | DeadlineExceeded

datatype TransportError =
    TCPDialFailed
  | TLSHandshakeFailed HandshakeCause
  | UnsupportedProtocol string
  | H2ConnFailed
  | RequestFailed nat

text \<open>
  A response as its reader sees it: status, headers, the bytes the body stream
  delivers, and the error that ends the stream in place of EOF, if any.
\<close>

record Response =
  Resp_StatusCode :: nat
  Resp_Header :: Header
  Resp_Body :: string
  Resp_BodyErr :: "string option"

record Net =
  dialContext :: "string \<Rightarrow> ConnId option"
  handshakeMillis :: "ConnId \<Rightarrow> nat"
  handshakeProto :: "ConnId \<Rightarrow> string option"
  canTakeNewRequest :: "ConnId \<Rightarrow> bool"
  newClientConn :: "ConnId \<Rightarrow> ConnId option"
  h2RoundTrip :: "ConnId \<Rightarrow> Request \<Rightarrow> TransportError + Response"
  h1RoundTrip :: "ConnId \<Rightarrow> Request \<Rightarrow> TransportError + Response"
  plainRoundTrip :: "Request \<Rightarrow> TransportError + Response"

text \<open>
  \<open>utlsRoundTripper\<close>: the pool \<open>h2ConnPool\<close> (one session per \<open>host:port\<close> key), the
  handshake timeout in milliseconds, and the trace. The locks are not modelled: a call
  runs alone.
\<close>

record utlsRoundTripper =
  h2ConnPool :: "string \<rightharpoonup> ConnId"
  tlsTimeout :: nat
  trace :: "Event list"

definition newUTLSRoundTripper :: utlsRoundTripper where
  "newUTLSRoundTripper = \<lparr>h2ConnPool = Map.empty, tlsTimeout = 10000, trace = []\<rparr>"

definition logEvents :: "utlsRoundTripper \<Rightarrow> Event list \<Rightarrow> utlsRoundTripper" where
  "logEvents rt evs = rt\<lparr>trace := trace rt @ evs\<rparr>"

text \<open>
  \<open>dialUTLS\<close>. \<open>deadline\<close> is the time left until the context's deadline, if it has
  one; otherwise the handshake gets \<open>tlsTimeout\<close>. A handshake that needs longer than
  that fails on the deadline; a failed handshake closes the socket.
\<close>

definition dialUTLS ::
  "Net \<Rightarrow> nat option \<Rightarrow> string \<Rightarrow> utlsRoundTripper
     \<Rightarrow> (TransportError + ConnId \<times> string) \<times> utlsRoundTripper" where
  "dialUTLS net deadline addr rt =
     (case dialContext net addr of
        None \<Rightarrow> (Inl TCPDialFailed, logEvents rt [EvDial addr])
      | Some conn \<Rightarrow>
          (let limit = (case deadline of Some d \<Rightarrow> d | None \<Rightarrow> tlsTimeout rt) in
           if handshakeMillis net conn > limit
           then (Inl (TLSHandshakeFailed DeadlineExceeded),
                 logEvents rt [EvDial addr, EvHandshake conn, EvClose conn])
           else (case handshakeProto net conn of
                   None \<Rightarrow> (Inl (TLSHandshakeFailed HandshakeRejected),
                             logEvents rt [EvDial addr, EvHandshake conn, EvClose conn])
                 | Some proto \<Rightarrow> (Inr (conn, proto),
                                   logEvents rt [EvDial addr, EvHandshake conn]))))"

text \<open>\<open>roundTripH2\<close>: wrap the connection in an HTTP/2 session, store it, issue the request.\<close>

definition roundTripH2 ::
  "Net \<Rightarrow> Request \<Rightarrow> ConnId \<Rightarrow> string \<Rightarrow> utlsRoundTripper
     \<Rightarrow> (TransportError + Response) \<times> utlsRoundTripper" where
  "roundTripH2 net req conn addr rt =
     (case newClientConn net conn of
        None \<Rightarrow> (Inl H2ConnFailed, logEvents rt [EvNewClientConn conn, EvClose conn])
      | Some h2Conn \<Rightarrow>
          (h2RoundTrip net h2Conn req,
           logEvents (rt\<lparr>h2ConnPool := (h2ConnPool rt)(addr \<mapsto> h2Conn)\<rparr>)
             [EvNewClientConn conn, EvH2RoundTrip h2Conn]))"

text \<open>\<open>roundTripH1\<close>: issue the request over the connection that is already open.\<close>

definition roundTripH1 ::
  "Net \<Rightarrow> Request \<Rightarrow> ConnId \<Rightarrow> utlsRoundTripper
     \<Rightarrow> (TransportError + Response) \<times> utlsRoundTripper" where
  "roundTripH1 net req conn rt =
     (case h1RoundTrip net conn req of
        Inl err \<Rightarrow> (Inl err, logEvents rt [EvH1RoundTrip conn, EvClose conn])
      | Inr resp \<Rightarrow> (Inr resp, logEvents rt [EvH1RoundTrip conn]))"

text \<open>
  \<open>RoundTrip\<close>, lines 141-159: dial, then branch on the negotiated protocol. It is a
  definition of its own because both ways into it (no usable pooled session, or a
  pooled round trip that failed) continue here.
\<close>

definition dialAndDispatch ::
  "Net \<Rightarrow> nat option \<Rightarrow> Request \<Rightarrow> string \<Rightarrow> utlsRoundTripper
     \<Rightarrow> (TransportError + Response) \<times> utlsRoundTripper" where
  "dialAndDispatch net deadline req addr rt =
     (case dialUTLS net deadline addr rt of
        (Inl err, rt') \<Rightarrow> (Inl err, rt')
      | (Inr (uConn, negotiatedProto), rt') \<Rightarrow>
          if negotiatedProto = ''h2'' then roundTripH2 net req uConn addr rt'
          else if negotiatedProto = ''http/1.1'' \<or> negotiatedProto = [] then
            roundTripH1 net req uConn rt'
          else (Inl (UnsupportedProtocol negotiatedProto), logEvents rt' [EvClose uConn]))"

text \<open>
  \<open>RoundTrip\<close>, lines 117-139, continuing in \<open>dialAndDispatch\<close>. After a failed round
  trip on a pooled session the entry is deleted and control falls through to the dial.
\<close>

definition RoundTrip ::
  "Net \<Rightarrow> nat option \<Rightarrow> Request \<Rightarrow> utlsRoundTripper
     \<Rightarrow> (TransportError + Response) \<times> utlsRoundTripper" where
  "RoundTrip net deadline req rt =
     (if URL_Scheme req \<noteq> ''https'' then
        (plainRoundTrip net req, logEvents rt [EvPlainRoundTrip])
      else
        (let addr = RoundTrip_addr (URL_Host req) in
         case h2ConnPool rt addr of
           None \<Rightarrow> dialAndDispatch net deadline req addr rt
         | Some h2Conn \<Rightarrow>
             if canTakeNewRequest net h2Conn then
               (case h2RoundTrip net h2Conn req of
                  Inr resp \<Rightarrow> (Inr resp, logEvents rt [EvH2RoundTrip h2Conn])
                | Inl err \<Rightarrow>
                    dialAndDispatch net deadline req addr
                      (logEvents (rt\<lparr>h2ConnPool := (h2ConnPool rt)(addr := None)\<rparr>)
                         [EvH2RoundTrip h2Conn]))
             else dialAndDispatch net deadline req addr rt))"

text \<open>
  \<open>UTLSClient.Do\<close>: the fingerprint's user agent is set when the request has none, a
  context without a deadline gets one of 30 seconds, and the request goes to
  \<open>RoundTrip\<close>. So \<open>RoundTrip\<close> called through \<open>Do\<close> always sees a deadline.
\<close>

definition UTLSClient_Do ::
  "Net \<Rightarrow> Fingerprint \<Rightarrow> nat option \<Rightarrow> Request \<Rightarrow> utlsRoundTripper
     \<Rightarrow> (TransportError + Response) \<times> utlsRoundTripper" where
  "UTLSClient_Do net fp deadline req rt =
     (let req' = (if Header_Get (Header req) ''User-Agent'' = []
                  then req\<lparr>Header := Header_Set (Header req) ''User-Agent'' (UserAgent fp)\<rparr>
                  else req);
          deadline' = (case deadline of Some d \<Rightarrow> Some d | None \<Rightarrow> Some 30000)
      in RoundTrip net deadline' req' rt)"

text \<open>The events that issue the request on some connection.\<close>

fun isRequestEvent :: "Event \<Rightarrow> bool" where
  "isRequestEvent EvPlainRoundTrip = True"
| "isRequestEvent (EvH2RoundTrip c) = True"
| "isRequestEvent (EvH1RoundTrip c) = True"
| "isRequestEvent _ = False"

fun isDialEvent :: "Event \<Rightarrow> bool" where
  "isDialEvent (EvDial a) = True"
| "isDialEvent (EvHandshake c) = True"
| "isDialEvent _ = False"

text \<open>
  The dial or the handshake fails: the TCP dial is refused, or the handshake needs more
  time than it is given, or the peer rejects it.
\<close>

definition handshakeLimit :: "nat option \<Rightarrow> utlsRoundTripper \<Rightarrow> nat" where
  "handshakeLimit deadline rt = (case deadline of Some d \<Rightarrow> d | None \<Rightarrow> tlsTimeout rt)"

definition dialFails :: "Net \<Rightarrow> nat option \<Rightarrow> string \<Rightarrow> utlsRoundTripper \<Rightarrow> bool" where
  "dialFails net deadline addr rt =
     (case dialContext net addr of
        None \<Rightarrow> True
      | Some conn \<Rightarrow>
          handshakeMillis net conn > handshakeLimit deadline rt \<or> handshakeProto net conn = None)"

text \<open>The events a call added to the trace.\<close>

definition newEvents :: "utlsRoundTripper \<Rightarrow> utlsRoundTripper \<Rightarrow> Event list" where
  "newEvents before after = drop (length (trace before)) (trace after)"

subsection \<open>Example inputs\<close>

definition exResponse :: Response where
  "exResponse = \<lparr>Resp_StatusCode = 200, Resp_Header = Map.empty, Resp_Body = ''ok'',
                  Resp_BodyErr = None\<rparr>"

definition exRequest :: Request where
  "exRequest = \<lparr>Method = ''GET'', URL_Scheme = ''https'', URL_Host = ''example.com'',
                 Host = ''example.com'', Header = Map.empty\<rparr>"

text \<open>
  A server that speaks HTTP/2: every dial gives connection 2, the handshake takes 50 ms
  and negotiates \<open>h2\<close>, the session over it is 3. Session 1 is an old session whose
  round trips fail; every other session answers.
\<close>

definition exNet :: Net where
  "exNet = \<lparr>dialContext = (\<lambda>addr. Some 2), handshakeMillis = (\<lambda>c. 50),
             handshakeProto = (\<lambda>c. Some ''h2''), canTakeNewRequest = (\<lambda>c. True),
             newClientConn = (\<lambda>c. Some 3),
             h2RoundTrip = (\<lambda>c r. if c = 1 then Inl (RequestFailed 0) else Inr exResponse),
             h1RoundTrip = (\<lambda>c r. Inr exResponse),
             plainRoundTrip = (\<lambda>r. Inr exResponse)\<rparr>"

definition exPooled :: utlsRoundTripper where
  "exPooled = newUTLSRoundTripper\<lparr>h2ConnPool := [''example.com:443'' \<mapsto> 1]\<rparr>"

text \<open>The same server, except that no HTTP/2 session can be set up over a connection.\<close>

definition exNetNoSession :: Net where
  "exNetNoSession = exNet\<lparr>newClientConn := (\<lambda>c. None)\<rparr>"

text \<open>A server that cannot be reached.\<close>

definition exNetDown :: Net where
  "exNetDown = exNet\<lparr>dialContext := (\<lambda>addr. None)\<rparr>"

text \<open>A server whose handshake takes a minute.\<close>

definition exNetSlow :: Net where
  "exNetSlow = exNet\<lparr>handshakeMillis := (\<lambda>c. 60000)\<rparr>"

text \<open>A server whose handshake takes eleven seconds, more than \<open>tlsTimeout\<close>.\<close>

definition exNetEleven :: Net where
  "exNetEleven = exNet\<lparr>handshakeMillis := (\<lambda>c. 11000)\<rparr>"

section \<open>Proxy frontend: the authentication gate\<close>

text \<open>
  \<open>http.ResponseWriter\<close>: the header map, the status once \<open>WriteHeader\<close> has been
  called (a second call changes nothing; a \<open>Write\<close> before any call sets 200), and
  the body written so far.
\<close>

record ResponseWriter =
  W_Header :: Header
  W_Status :: "nat option"
  W_Body :: string

definition WriteHeader :: "ResponseWriter \<Rightarrow> nat \<Rightarrow> ResponseWriter" where
  "WriteHeader w code = (case W_Status w of None \<Rightarrow> w\<lparr>W_Status := Some code\<rparr> | Some _ \<Rightarrow> w)"

definition Write :: "ResponseWriter \<Rightarrow> string \<Rightarrow> ResponseWriter" where
  "Write w bytes = (let w' = WriteHeader w 200 in w'\<lparr>W_Body := W_Body w' @ bytes\<rparr>)"

definition dquote :: char where
  "dquote = char_of (34::nat)"

definition crlf :: string where
  "crlf = [char_of (13::nat), char_of (10::nat)]"

text \<open>\<open>auth.Reject407\<close>.\<close>

definition Reject407 :: "ResponseWriter \<Rightarrow> ResponseWriter" where
  "Reject407 w =
     (let w1 = w\<lparr>W_Header := Header_Set (W_Header w) ''Proxy-Authenticate''
                                (''Basic realm='' @ [dquote] @ ''Strike2'' @ [dquote])\<rparr>;
          w2 = w1\<lparr>W_Header := Header_Set (W_Header w1) ''Content-Type'' ''text/plain''\<rparr>;
          w3 = WriteHeader w2 407
      in Write w3 (''407 Proxy Authentication Required'' @ crlf))"

text \<open>\<open>http.Error\<close> of the Go library.\<close>

definition http_Error :: "ResponseWriter \<Rightarrow> string \<Rightarrow> nat \<Rightarrow> ResponseWriter" where
  "http_Error w msg code =
     (let h1 = Header_Del (W_Header w) ''Content-Length'';
          h2 = Header_Set h1 ''Content-Type'' ''text/plain; charset=utf-8'';
          h3 = Header_Set h2 ''X-Content-Type-Options'' ''nosniff'';
          w1 = WriteHeader (w\<lparr>W_Header := h3\<rparr>) code
      in Write w1 (msg @ [char_of (10::nat)]))"

text \<open>
  A handler writes to the response writer and, while it runs, may dial and issue
  requests: it returns the writer and the network events it caused. The proxy handler
  and the API router are the two handlers \<open>combinedHandler\<close> holds; the proxy handler
  is absent when it could not be built, the authenticator when no token is configured.
\<close>

type_synonym Handler = "ResponseWriter \<Rightarrow> Request \<Rightarrow> ResponseWriter \<times> Event list"

record combinedHandler =
  apiRouter :: Handler
  proxyHandler :: "Handler option"
  simpleAuth :: "string option"

text \<open>
  \<open>strike2.New\<close>, lines 70-76: the authenticator exists only for a non-empty token.
  \<open>NewSimpleAuth\<close> would replace an empty token by a generated one.
\<close>

definition NewSimpleAuth :: "string \<Rightarrow> string \<Rightarrow> string" where
  "NewSimpleAuth generated token = (if token = [] then generated else token)"

definition New_simpleAuth :: "string \<Rightarrow> string \<Rightarrow> string option" where
  "New_simpleAuth generated proxyToken =
     (if proxyToken \<noteq> [] then Some (NewSimpleAuth generated proxyToken) else None)"

text \<open>The test \<open>h.simpleAuth != nil && !h.simpleAuth.ValidateProxyAuth(r)\<close>.\<close>

definition authRejects :: "string option \<Rightarrow> Request \<Rightarrow> bool" where
  "authRejects auth r = (case auth of None \<Rightarrow> False | Some token \<Rightarrow> \<not> ValidateProxyAuth token r)"

text \<open>\<open>combinedHandler.ServeHTTP\<close>.\<close>

definition combinedHandler_ServeHTTP ::
  "combinedHandler \<Rightarrow> ResponseWriter \<Rightarrow> Request \<Rightarrow> ResponseWriter \<times> Event list" where
  "combinedHandler_ServeHTTP h w r =
     (if Method r = ''CONNECT'' then
        (case proxyHandler h of
           Some ph \<Rightarrow>
             if authRejects (simpleAuth h) r then (Reject407 w, [])
             else ph w r
         | None \<Rightarrow> (http_Error w ''Proxy not enabled'' 503, []))
      else if URL_Scheme r \<noteq> [] \<and> proxyHandler h \<noteq> None then
        (if authRejects (simpleAuth h) r then (Reject407 w, [])
         else the (proxyHandler h) w r)
      else apiRouter h w r)"

subsection \<open>Example inputs\<close>

definition freshWriter :: ResponseWriter where
  "freshWriter = \<lparr>W_Header = Map.empty, W_Status = None, W_Body = []\<rparr>"

text \<open>A \<open>CONNECT\<close> request that carries no credentials.\<close>

definition exConnect :: Request where
  "exConnect = \<lparr>Method = ''CONNECT'', URL_Scheme = [], URL_Host = ''example.com:443'',
                 Host = ''example.com:443'', Header = Map.empty\<rparr>"

text \<open>A stand-in for the proxy handler: it dials the tunnel target and answers 200.\<close>

definition exProxyHandler :: Handler where
  "exProxyHandler w r = (WriteHeader w 200, [EvDial (handleConnect_targetAddr (Host r))])"

definition exApiRouter :: Handler where
  "exApiRouter w r = (WriteHeader w 404, [])"

section \<open>Scraper: \<open>FetchURL\<close>\<close>

record FetchRequest =
  Req_URL :: string
  Req_Fingerprint :: string
  Req_Headers :: "(string \<times> string) list"
  Req_Method :: string
  Req_Body :: string

text \<open>
  \<open>FetchResponse\<close>. \<open>Duration\<close> is wall-clock time and is left out; an empty \<open>Error\<close>
  is the field not being set.
\<close>

record FetchResponse =
  URL :: string
  StatusCode :: nat
  Headers :: "string \<rightharpoonup> string"
  Body :: string
  Error :: string

text \<open>
  What \<open>FetchURL\<close> gets from outside: whether a worker slot was obtained before the
  context was done; the error of \<open>http.NewRequestWithContext\<close> for a method and URL,
  if any; the outcome of \<open>client.Do\<close> (an error text or a response); and the gzip
  library. \<open>gzip.NewReader\<close> reads the stream's header through a buffered reader:
  \<open>gzipHeaderOK\<close> says whether it accepts the header, \<open>gzipPulled\<close> how many bytes the
  buffered reader has taken from the body by then, and \<open>gunzip\<close> what the decompressing
  reader delivers for a body and the body's own terminal error: the bytes and the error
  that ends them, if any.
\<close>

record FetchEnv =
  acquired :: bool
  requestError :: "string \<Rightarrow> string \<Rightarrow> string option"
  send :: "string \<Rightarrow> FetchRequest \<Rightarrow> string + Response"
  gzipHeaderOK :: "string \<Rightarrow> bool"
  gzipPulled :: "string \<Rightarrow> nat"
  gunzip :: "string \<Rightarrow> string option \<Rightarrow> string \<times> string option"

text \<open>
  \<open>io.ReadAll(io.LimitReader(reader, n))\<close> on a stream that delivers \<open>data\<close> and then
  ends with EOF or with an error: once \<open>n\<close> bytes are read the limited reader reports
  EOF itself and the rest of the stream, its error included, is never looked at.
\<close>

definition readAllLimited :: "nat \<Rightarrow> string \<times> string option \<Rightarrow> string + string" where
  "readAllLimited n stream =
     (case stream of (data, err) \<Rightarrow>
        if n \<le> length data then Inr (take n data)
        else (case err of None \<Rightarrow> Inr data | Some e \<Rightarrow> Inl e))"

definition bodyLimit :: nat where
  "bodyLimit = 10 * 1024 * 1024"

text \<open>
  Lines 158-165: the reader the body is read from. With \<open>Content-Encoding: gzip\<close> and
  a header that \<open>gzip.NewReader\<close> accepts it is the decompressing reader. When
  \<open>gzip.NewReader\<close> fails, \<open>reader\<close> stays \<open>resp.Body\<close>, which by then has lost the
  bytes the buffered reader took.
\<close>

definition FetchURL_reader :: "FetchEnv \<Rightarrow> Response \<Rightarrow> string \<times> string option" where
  "FetchURL_reader env resp =
     (if Header_Get (Resp_Header resp) ''Content-Encoding'' = ''gzip'' then
        (if gzipHeaderOK env (Resp_Body resp)
         then gunzip env (Resp_Body resp) (Resp_BodyErr resp)
         else (drop (gzipPulled env (Resp_Body resp)) (Resp_Body resp), Resp_BodyErr resp))
      else (Resp_Body resp, Resp_BodyErr resp))"

text \<open>Lines 177-180: one value per header key, the first.\<close>

definition flattenHeaders :: "Header \<Rightarrow> (string \<rightharpoonup> string)" where
  "flattenHeaders h = (\<lambda>key. case h key of None \<Rightarrow> None | Some vs \<Rightarrow> Some (Header_Get h key))"

definition failed :: "string \<Rightarrow> nat \<Rightarrow> string \<Rightarrow> FetchResponse" where
  "failed url status msg =
     \<lparr>URL = url, StatusCode = status, Headers = Map.empty, Body = [], Error = msg\<rparr>"

text \<open>\<open>ScraperService.FetchURL\<close>. \<open>getClient\<close> cannot fail (\<open>NewUTLSClient\<close> returns no error).\<close>

definition FetchURL :: "FetchEnv \<Rightarrow> FetchRequest \<Rightarrow> FetchResponse" where
  "FetchURL env req =
     (if \<not> acquired env then
        failed (Req_URL req) 0 ''context cancelled while waiting for worker''
      else
        (let method = (if Req_Method req = [] then ''GET'' else Req_Method req) in
         case requestError env method (Req_URL req) of
           Some e \<Rightarrow> failed (Req_URL req) 0 (''failed to create request: '' @ e)
         | None \<Rightarrow>
             (case send env method req of
                Inl e \<Rightarrow> failed (Req_URL req) 0 (''request failed: '' @ e)
              | Inr resp \<Rightarrow>
                  (case readAllLimited bodyLimit (FetchURL_reader env resp) of
                     Inl e \<Rightarrow>
                       failed (Req_URL req) (Resp_StatusCode resp) (''failed to read body: '' @ e)
                   | Inr bodyBytes \<Rightarrow>
                       \<lparr>URL = Req_URL req, StatusCode = Resp_StatusCode resp,
                        Headers = flattenHeaders (Resp_Header resp),
                        Body = bodyBytes, Error = []\<rparr>))))"

subsection \<open>Example inputs\<close>

definition exFetchRequest :: FetchRequest where
  "exFetchRequest = \<lparr>Req_URL = ''https://example.com/'', Req_Fingerprint = [],
                      Req_Headers = [], Req_Method = [], Req_Body = []\<rparr>"


text \<open>
  A response that announces gzip and carries thirteen bytes that are no gzip stream.
\<close>

definition exNotGzip :: Response where
  "exNotGzip = \<lparr>Resp_StatusCode = 200,
                 Resp_Header = [''Content-Encoding'' \<mapsto> [''gzip'']],
                 Resp_Body = ''not gzip data'', Resp_BodyErr = None\<rparr>"

text \<open>
  The environment: a slot is free, the request is well formed, the server answers with
  the given response. The gzip header is accepted when the stream starts with the gzip
  magic bytes and the deflate method; the buffered reader takes what is there, up to its
  4096 bytes, in one read.
\<close>

definition exFetchEnv :: "Response \<Rightarrow> FetchEnv" where
  "exFetchEnv resp =
     \<lparr>acquired = True, requestError = (\<lambda>m u. None), send = (\<lambda>m r. Inr resp),
      gzipHeaderOK = (\<lambda>b. 10 \<le> length b \<and> map byte (take 3 b) = [31, 139, 8]),
      gzipPulled = (\<lambda>b. min 4096 (length b)),
      gunzip = (\<lambda>b e. ([], Some ''unexpected EOF''))\<rparr>"

section \<open>Verification\<close>

subsection \<open>Default port\<close>

lemma Contains_byte: "strings_Contains s [c] = (c \<in> set s)"
  by (induction s) (auto simp: strings_HasPrefix_def)

lemma addr_port_absent:
  "CHR '':'' \<notin> set host \<Longrightarrow>
   RoundTrip_addr host = host @ '':443'' \<and> handleConnect_targetAddr host = host @ '':443''"
  by (simp add: RoundTrip_addr_def handleConnect_targetAddr_def Contains_byte)

lemma addr_colon_present:
  "CHR '':'' \<in> set host \<Longrightarrow>
   RoundTrip_addr host = host \<and> handleConnect_targetAddr host = host"
  by (simp add: RoundTrip_addr_def handleConnect_targetAddr_def Contains_byte)

text \<open>
  Claim C8. A host given without a port gets \<open>:443\<close> appended, both as pool key and as
  tunnel target. The code decides "has a port" by looking for any colon, so a bracketed
  IPv6 literal without a port, which \<open>net/url\<close> reports as having no port, is left
  without one: the key and the dial address are the bare literal.
\<close>

theorem default_port_ipv6_literal:
  "portOnly ''[::1]'' = []
   \<and> RoundTrip_addr ''[::1]'' = ''[::1]''
   \<and> handleConnect_targetAddr ''[::1]'' = ''[::1]''"
  by (simp add: portOnly_def RoundTrip_addr_def handleConnect_targetAddr_def
      strings_HasPrefix_def)

subsection \<open>Fingerprint selection\<close>

lemma lowerByte_ascii: "byte (lowerByte a) < 128 \<longleftrightarrow> byte a < 128"
  unfolding lowerByte_def byte_def by auto

lemma lowerByte_eq_ascii: "lowerByte a = lowerByte b \<Longrightarrow> byte b < 128 \<Longrightarrow> byte a < 128"
  by (metis lowerByte_ascii)

lemma isASCII_caseVariant: "caseVariant name known \<Longrightarrow> isASCII known \<Longrightarrow> isASCII name"
  unfolding caseVariant_def isASCII_def
  by (induction rule: list_all2_induct) (simp_all add: lowerByte_eq_ascii)

lemma caseVariant_map:
  "caseVariant name known \<longleftrightarrow> map lowerByte name = map lowerByte known"
  unfolding caseVariant_def
proof
  assume "list_all2 (\<lambda>a b. lowerByte a = lowerByte b) name known"
  then show "map lowerByte name = map lowerByte known"
    by (induction rule: list_all2_induct) auto
next
  assume "map lowerByte name = map lowerByte known"
  then show "list_all2 (\<lambda>a b. lowerByte a = lowerByte b) name known"
  proof (induction name arbitrary: known)
    case Nil then show ?case by simp
  next
    case (Cons a name) then show ?case by (cases known) auto
  qed
qed

lemma ToLower_caseVariant:
  "isASCII name \<Longrightarrow> isASCII known \<Longrightarrow>
   strings_ToLower ul name = strings_ToLower ul known \<longleftrightarrow> caseVariant name known"
  by (simp add: strings_ToLower_def caseVariant_map)

lemma catalog_names: "map Name GetFingerprints = [''Chrome'', ''Firefox'', ''Safari'']"
  by (simp add: GetFingerprints_def)

lemma catalog_ascii:
  assumes "p \<in> set GetFingerprints"
  shows "isASCII (Name p) \<and> Name p \<noteq> []"
proof -
  have "Name p \<in> set (map Name GetFingerprints)"
    using assms by (simp only: set_map) (rule imageI)
  then have "Name p = ''Chrome'' \<or> Name p = ''Firefox'' \<or> Name p = ''Safari''"
    by (simp only: catalog_names) simp
  then show ?thesis
    by (elim disjE) (simp_all add: isASCII_def byte_def)
qed

lemma names_lower:
 "map (\<lambda>fp. strings_ToLower ul (Name fp)) GetFingerprints = [''chrome'', ''firefox'', ''safari'']"
  by (simp add: GetFingerprints_def strings_ToLower_def isASCII_def byte_def lowerByte_def char_of_eq_iff)

lemma findLoop_None:
  "findLoop ul t fps = None \<longleftrightarrow> (\<forall>fp \<in> set fps. strings_ToLower ul (Name fp) \<noteq> t)"
  by (induction fps) auto

lemma findLoop_distinct:
  "distinct (map (\<lambda>fp. strings_ToLower ul (Name fp)) fps) \<Longrightarrow> p \<in> set fps \<Longrightarrow>
   findLoop ul (strings_ToLower ul (Name p)) fps = Some p"
  by (induction fps) force+

lemma catalog_distinct: "distinct (map (\<lambda>fp. strings_ToLower ul (Name fp)) GetFingerprints)"
  by (simp add: names_lower)

lemma find_known:
  assumes "p \<in> set GetFingerprints" "caseVariant name (Name p)"
  shows "findFingerprint ul name = p"
proof -
  have a: "isASCII (Name p)" "Name p \<noteq> []" using assms(1) catalog_ascii by auto
  have n: "name \<noteq> []" using assms(2) a(2) by (auto simp: caseVariant_def)
  have "isASCII name" using assms(2) a(1) by (rule isASCII_caseVariant)
  then have "strings_ToLower ul name = strings_ToLower ul (Name p)"
    using a(1) assms(2) by (simp add: ToLower_caseVariant)
  then show ?thesis
    using n findLoop_distinct [OF catalog_distinct assms(1)]
    by (simp add: findFingerprint_def)
qed

lemma find_unknown:
  assumes "\<forall>p \<in> set GetFingerprints. strings_ToLower ul name \<noteq> strings_ToLower ul (Name p)"
  shows "findFingerprint ul name = GetRandomFingerprint"
proof -
  have "findLoop ul (strings_ToLower ul name) GetFingerprints = None"
    using assms by (auto simp: findLoop_None)
  then show ?thesis by (simp add: findFingerprint_def)
qed

text \<open>
  Claim C9. For every catalog profile and every spelling of its name in any letter case,
  \<open>findFingerprint\<close> returns exactly that profile. For every name that matches no
  catalog name once both are lowered (in particular every ASCII name that is no case
  variant of a catalog name) and for the empty name, it returns the default, which is
  the first catalog entry, Chrome. The function is total: it never reports an error.
\<close>

theorem findFingerprint_known_or_default:
  "(\<forall>p \<in> set GetFingerprints. \<forall>name. caseVariant name (Name p) \<longrightarrow> findFingerprint ul name = p)
   \<and> (\<forall>name. (\<forall>p \<in> set GetFingerprints. strings_ToLower ul name \<noteq> strings_ToLower ul (Name p))
          \<longrightarrow> findFingerprint ul name = GetRandomFingerprint)
   \<and> (\<forall>name. isASCII name \<and> (\<forall>p \<in> set GetFingerprints. \<not> caseVariant name (Name p))
          \<longrightarrow> findFingerprint ul name = GetRandomFingerprint)
   \<and> findFingerprint ul [] = GetRandomFingerprint
   \<and> GetRandomFingerprint = hd GetFingerprints
   \<and> Name GetRandomFingerprint = ''Chrome''"
proof (intro conjI allI ballI impI)
  fix p name assume "p \<in> set GetFingerprints" "caseVariant name (Name p)"
  then show "findFingerprint ul name = p" by (rule find_known)
next
  fix name
  assume "\<forall>p \<in> set GetFingerprints. strings_ToLower ul name \<noteq> strings_ToLower ul (Name p)"
  then show "findFingerprint ul name = GetRandomFingerprint" by (rule find_unknown)
next
  fix name
  assume h: "isASCII name \<and> (\<forall>p \<in> set GetFingerprints. \<not> caseVariant name (Name p))"
  then have "\<forall>p \<in> set GetFingerprints. strings_ToLower ul name \<noteq> strings_ToLower ul (Name p)"
    using catalog_ascii ToLower_caseVariant by blast
  then show "findFingerprint ul name = GetRandomFingerprint" by (rule find_unknown)
next
  show "findFingerprint ul [] = GetRandomFingerprint" by (simp add: findFingerprint_def)
  show "GetRandomFingerprint = hd GetFingerprints"
    by (simp add: GetRandomFingerprint_def GetFingerprints_def)
  show "Name GetRandomFingerprint = ''Chrome''"
    by (simp add: GetRandomFingerprint_def GetFingerprints_def)
qed

theorem findFingerprint_known_or_default_witness:
  "findFingerprint id ''fireFOX'' = GetFingerprints ! 1
   \<and> Name (findFingerprint id ''SAFARI'') = ''Safari''
   \<and> Name (findFingerprint id ''opera'') = ''Chrome''
   \<and> Name (findFingerprint id []) = ''Chrome''"
proof -
  have m1: "GetFingerprints ! 1 \<in> set GetFingerprints"
    and m2: "GetFingerprints ! 2 \<in> set GetFingerprints"
    by (simp_all add: GetFingerprints_def)
  have v1: "caseVariant ''fireFOX'' (Name (GetFingerprints ! 1))"
    and v2: "caseVariant ''SAFARI'' (Name (GetFingerprints ! 2))"
    by code_simp+
  have u: "isASCII ''opera'' \<and> (\<forall>p \<in> set GetFingerprints. \<not> caseVariant ''opera'' (Name p))"
    by code_simp
  note T = findFingerprint_known_or_default [of id]
  from T m1 v1 have "findFingerprint id ''fireFOX'' = GetFingerprints ! 1" by blast
  moreover from T m2 v2 have "findFingerprint id ''SAFARI'' = GetFingerprints ! 2" by blast
  moreover from T u have "findFingerprint id ''opera'' = GetRandomFingerprint" by blast
  moreover from T have "findFingerprint id [] = GetRandomFingerprint" by blast
  moreover from T have "Name GetRandomFingerprint = ''Chrome''" by blast
  ultimately show ?thesis by (simp add: GetFingerprints_def)
qed

subsection \<open>Hop-by-hop header filter\<close>

lemma Values_addValues:
  "Header_Values (addValues dst key vs) k =
     Header_Values dst k @
       (if CanonicalMIMEHeaderKey k = CanonicalMIMEHeaderKey key then vs else [])"
  by (induction vs arbitrary: dst) (auto simp: Header_Values_def Header_Add_def Let_def)

lemma Values_copyHeaders:
  "Header_Values (copyHeaders dst src) k =
     Header_Values dst k @
       concat (map snd (filter (\<lambda>(key, vs). \<not> hopByHop key \<and>
                 CanonicalMIMEHeaderKey key = CanonicalMIMEHeaderKey k) src))"
  by (induction dst src rule: copyHeaders.induct) (auto simp: Values_addValues)

lemma filter_key_absent:
  "k \<notin> fst ` set src \<Longrightarrow> filter (\<lambda>(key, vs). P key \<and> key = k) src = []"
  by (induction src) auto

lemma concat_filter_key:
  "distinct (map fst src) \<Longrightarrow>
   concat (map snd (filter (\<lambda>(key, vs). key = k) src)) = entryValues src k"
proof (induction src)
  case Nil
  then show ?case by (simp add: entryValues_def)
next
  case (Cons e src)
  obtain key vs where e: "e = (key, vs)" by (cases e)
  show ?case
  proof (cases "key = k")
    case True
    then have "k \<notin> fst ` set src" using Cons.prems e by auto
    then have "filter (\<lambda>(key, vs). True \<and> key = k) src = []" by (rule filter_key_absent)
    then show ?thesis using True e by (simp add: entryValues_def)
  next
    case False
    then show ?thesis using Cons e by (simp add: entryValues_def)
  qed
qed

lemma parsed_filter:
  assumes "parsedHeader src"
  shows "filter (\<lambda>(key, vs). \<not> hopByHop key \<and> CanonicalMIMEHeaderKey key = c) src =
         (if hopByHop c then [] else filter (\<lambda>(key, vs). key = c) src)"
proof -
  have canon: "\<forall>e \<in> set src. CanonicalMIMEHeaderKey (fst e) = fst e"
    using assms by (auto simp: parsedHeader_def list_all_iff)
  show ?thesis
  proof (cases "hopByHop c")
    case True
    have "\<forall>e \<in> set src. \<not> (case e of (key, vs) \<Rightarrow>
            \<not> hopByHop key \<and> CanonicalMIMEHeaderKey key = c)"
      using canon True by (auto simp: case_prod_beta)
    then show ?thesis using True by (simp add: filter_empty_conv)
  next
    case False
    have "\<forall>e \<in> set src. (case e of (key, vs) \<Rightarrow>
            \<not> hopByHop key \<and> CanonicalMIMEHeaderKey key = c) =
          (case e of (key, vs) \<Rightarrow> key = c)"
      using canon False by (auto simp: case_prod_beta)
    then show ?thesis using False by (simp cong: filter_cong)
  qed
qed

lemma Values_copyHeaders_parsed:
  assumes "parsedHeader src"
  shows "Header_Values (copyHeaders dst src) k =
         Header_Values dst k @
           (if hopByHop (CanonicalMIMEHeaderKey k) then []
            else entryValues src (CanonicalMIMEHeaderKey k))"
proof -
  have d: "distinct (map fst src)" using assms by (simp add: parsedHeader_def)
  show ?thesis
    by (simp add: Values_copyHeaders parsed_filter [OF assms] concat_filter_key [OF d])
qed

lemma Values_Del:
  "Header_Values (Header_Del h key) k =
     (if CanonicalMIMEHeaderKey k = CanonicalMIMEHeaderKey key then [] else Header_Values h k)"
  by (simp add: Header_Values_def Header_Del_def)

lemma Values_empty: "Header_Values Map.empty k = []"
  by (simp add: Header_Values_def)

lemma canon_proxy_keys:
  "CanonicalMIMEHeaderKey ''Proxy-Connection'' = ''Proxy-Connection''"
  "CanonicalMIMEHeaderKey ''Proxy-Authorization'' = ''Proxy-Authorization''"
  by code_simp+

lemma hop_proxy_keys: "hopByHop ''Proxy-Connection''" "hopByHop ''Proxy-Authorization''"
  by (simp_all add: hopByHop_def)

lemma Values_outHeader:
  assumes "parsedHeader src"
  shows "Header_Values (handleHTTP_outHeader src) k =
         (if hopByHop (CanonicalMIMEHeaderKey k) then []
          else entryValues src (CanonicalMIMEHeaderKey k))"
  using hop_proxy_keys
  by (auto simp: handleHTTP_outHeader_def Values_Del canon_proxy_keys Values_empty
      Values_copyHeaders_parsed [OF assms])

text \<open>
  Claim C7. For a header map as \<open>net/http\<close> parses it (distinct canonical keys), the
  filter drops exactly the nine hop-by-hop keys Connection, Keep-Alive,
  Proxy-Authenticate, Proxy-Authorization, Proxy-Connection, Te, Trailer,
  Transfer-Encoding and Upgrade, and appends to the destination, under every other key,
  the complete list of that key's values in their order. This holds for the response
  writer's header map and for the header map of the outbound request, where the two
  deletions that follow change nothing.
\<close>

theorem copyHeaders_removes_hop_by_hop:
  assumes "parsedHeader src"
  shows "Header_Values (handleHTTP_respHeader dst src) k =
           Header_Values dst k @
             (if hopByHop (CanonicalMIMEHeaderKey k) then []
              else entryValues src (CanonicalMIMEHeaderKey k))
         \<and> Header_Values (handleHTTP_outHeader src) k =
             (if hopByHop (CanonicalMIMEHeaderKey k) then []
              else entryValues src (CanonicalMIMEHeaderKey k))
         \<and> (hopByHop k \<longleftrightarrow>
              k \<in> {''Connection'', ''Keep-Alive'', ''Proxy-Authenticate'',
                    ''Proxy-Authorization'', ''Proxy-Connection'', ''Te'', ''Trailer'',
                    ''Transfer-Encoding'', ''Upgrade''})"
proof (intro conjI)
  show "Header_Values (handleHTTP_respHeader dst src) k =
           Header_Values dst k @
             (if hopByHop (CanonicalMIMEHeaderKey k) then []
              else entryValues src (CanonicalMIMEHeaderKey k))"
    unfolding handleHTTP_respHeader_def by (rule Values_copyHeaders_parsed [OF assms])
  show "Header_Values (handleHTTP_outHeader src) k =
             (if hopByHop (CanonicalMIMEHeaderKey k) then []
              else entryValues src (CanonicalMIMEHeaderKey k))"
    by (rule Values_outHeader [OF assms])
  show "hopByHop k \<longleftrightarrow>
          k \<in> {''Connection'', ''Keep-Alive'', ''Proxy-Authenticate'',
                ''Proxy-Authorization'', ''Proxy-Connection'', ''Te'', ''Trailer'',
                ''Transfer-Encoding'', ''Upgrade''}"
    unfolding hopByHop_def by simp
qed

theorem copyHeaders_removes_hop_by_hop_witness:
  "parsedHeader [(''Connection'', [''close'']), (''Accept'', [''text/html'', ''*/*'']),
                 (''Te'', [''trailers''])]
   \<and> Header_Values (handleHTTP_outHeader
         [(''Connection'', [''close'']), (''Accept'', [''text/html'', ''*/*'']),
          (''Te'', [''trailers''])]) ''Accept'' = [''text/html'', ''*/*'']
   \<and> Header_Values (handleHTTP_outHeader
         [(''Connection'', [''close'']), (''Accept'', [''text/html'', ''*/*'']),
          (''Te'', [''trailers''])]) ''Connection'' = []"
proof -
  let ?src = "[(''Connection'', [''close'']), (''Accept'', [''text/html'', ''*/*'']),
               (''Te'', [''trailers''])]"
  have p: "parsedHeader ?src" by code_simp
  have c: "CanonicalMIMEHeaderKey ''Accept'' = ''Accept''"
    "CanonicalMIMEHeaderKey ''Connection'' = ''Connection''" by code_simp+
  from copyHeaders_removes_hop_by_hop [OF p, of Map.empty "''Accept''"]
    copyHeaders_removes_hop_by_hop [OF p, of Map.empty "''Connection''"] p
  show ?thesis by (simp add: c hopByHop_def entryValues_def)
qed

subsection \<open>Base64 round trip\<close>

lemma distinct_encodeStd: "distinct encodeStd"
  unfolding encodeStd_def by simp

lemma length_encodeStd: "length encodeStd = 64"
  unfolding encodeStd_def by simp

lemma decodeMap_enc: "n < 64 \<Longrightarrow> decodeMap (encodeStd ! n) = Some n"
  unfolding decodeMap_def
  using map_of_zip_nth [of encodeStd "[0..<64]" n] distinct_encodeStd length_encodeStd
  by simp

lemma decodeMap_None: "decodeMap c = None \<longleftrightarrow> c \<notin> set encodeStd"
  unfolding decodeMap_def
  using map_of_zip_is_None [of encodeStd "[0..<64]" c] length_encodeStd by simp

lemma decodeMap_padChar: "decodeMap padChar = None"
  unfolding decodeMap_None by (simp add: padChar_def encodeStd_def)

lemma recombine:
  "(val div 262144) * 262144 + (val div 4096 mod 64) * 4096 + (val div 64 mod 64) * 64
     + val mod 64 = (val::nat)"
proof -
  define q1 where "q1 = val div 64"
  define q2 where "q2 = q1 div 64"
  define q3 where "q3 = q2 div 64"
  have e2: "val div 4096 = q2" unfolding q2_def q1_def by (simp add: div_mult2_eq)
  have e3: "val div 262144 = q3" unfolding q3_def q2_def q1_def by (simp add: div_mult2_eq)
  have a: "val = q1 * 64 + val mod 64" unfolding q1_def by simp
  have b: "q1 = q2 * 64 + q1 mod 64" unfolding q2_def by simp
  have c: "q2 = q3 * 64 + q2 mod 64" unfolding q3_def by simp
  have "q3 * 262144 + (q2 mod 64) * 4096 + (q1 mod 64) * 64 + val mod 64
        = ((q3 * 64 + q2 mod 64) * 64 + q1 mod 64) * 64 + val mod 64"
    by (simp add: algebra_simps)
  also have "\<dots> = val" using a b c by metis
  finally show ?thesis unfolding e2 e3 q1_def [symmetric] .
qed

lemma bytes_of_val:
  assumes "a < 256" "b < 256" "c < (256::nat)"
  shows "(a * 65536 + b * 256 + c) div 65536 = a"
    and "(a * 65536 + b * 256 + c) div 256 mod 256 = b"
    and "(a * 65536 + b * 256 + c) mod 256 = c"
proof -
  have r: "b * 256 + c < 65536" using assms by simp
  show "(a * 65536 + b * 256 + c) div 65536 = a" using r by (simp add: add.assoc)
  have "(a * 65536 + b * 256 + c) div 256 = a * 256 + b" using assms by simp
  then show "(a * 65536 + b * 256 + c) div 256 mod 256 = b" using assms by simp
  have "a * 65536 + b * 256 + c = (a * 256 + b) * 256 + c" by simp
  then show "(a * 65536 + b * 256 + c) mod 256 = c"
    using assms by (simp only: mod_mult_self3) simp
qed

lemma byte_less: "byte c < 256"
  by (simp add: byte_def)

lemma char_of_byte: "char_of (byte c) = c"
  by (simp add: byte_def)

lemma assemble_triple:
  "assemble ((byte a * 65536 + byte b * 256 + byte c) div 262144)
            ((byte a * 65536 + byte b * 256 + byte c) div 4096 mod 64)
            ((byte a * 65536 + byte b * 256 + byte c) div 64 mod 64)
            ((byte a * 65536 + byte b * 256 + byte c) mod 64) = [a, b, c]"
  unfolding assemble_def Let_def recombine
  by (simp only: bytes_of_val [OF byte_less byte_less byte_less] char_of_byte)

lemma assemble_pair:
  "take 2 (assemble ((byte a * 65536 + byte b * 256) div 262144)
                    ((byte a * 65536 + byte b * 256) div 4096 mod 64)
                    ((byte a * 65536 + byte b * 256) div 64 mod 64) 0) = [a, b]"
proof -
  let ?v = "byte a * 65536 + byte b * 256"
  have "?v = (byte a * 1024 + byte b * 4) * 64" by simp
  then have z: "?v mod 64 = 0" by (simp only: mod_mult_self2_is_0)
  have "?v div 262144 * 262144 + ?v div 4096 mod 64 * 4096 + ?v div 64 mod 64 * 64 + 0 = ?v"
    using recombine [of ?v] z by simp
  moreover have "?v div 65536 = byte a" "?v div 256 mod 256 = byte b"
    using bytes_of_val(1,2) [OF byte_less [of a] byte_less [of b], of 0] by simp_all
  ultimately show ?thesis
    unfolding assemble_def Let_def by (simp add: char_of_byte)
qed

lemma assemble_single:
  "take 1 (assemble ((byte a * 65536) div 262144) ((byte a * 65536) div 4096 mod 64) 0 0)
     = [a]"
proof -
  let ?v = "byte a * 65536"
  have d: "?v div 64 = byte a * 1024" by simp
  have z: "?v mod 64 = 0" "?v div 64 mod 64 = 0" by (simp, simp only: d, simp)
  have "?v div 262144 * 262144 + ?v div 4096 mod 64 * 4096 + 0 * 64 + 0 = ?v"
    using recombine [of ?v] z by simp
  moreover have "?v div 65536 = byte a" by simp
  ultimately show ?thesis
    unfolding assemble_def Let_def by (simp add: char_of_byte)
qed

lemma sextet_bounds:
  assumes "val < 16777216"
  shows "val div 262144 < 64" "val div 4096 mod 64 < 64" "val div 64 mod 64 < 64"
    "val mod 64 < (64::nat)"
  using assms by simp_all

lemma val_bound: "byte a * 65536 + byte b * 256 + byte c < 16777216"
  using byte_less [of a] byte_less [of b] byte_less [of c] by simp

lemma val_bound2: "byte a * 65536 + byte b * 256 < 16777216"
  using val_bound [of a b "char_of (0::nat)"] by (simp add: byte_def)

lemma val_bound1: "byte a * 65536 < 16777216"
  using byte_less [of a] by simp

lemma decodeQuanta_Encode: "decodeQuanta (EncodeToString s) = Some s"
proof (induction s rule: EncodeToString.induct)
  case (1 a b c rest)
  define v where "v = byte a * 65536 + byte b * 256 + byte c"
  define s0 where "s0 = v div 262144"
  define s1 where "s1 = v div 4096 mod 64"
  define s2 where "s2 = v div 64 mod 64"
  define s3 where "s3 = v mod 64"
  have enc: "EncodeToString (a # b # c # rest) =
      encodeStd ! s0 # encodeStd ! s1 # encodeStd ! s2 # encodeStd ! s3 # EncodeToString rest"
    unfolding s0_def s1_def s2_def s3_def v_def by (simp add: sextets_def)
  have sb: "s0 < 64" "s1 < 64" "s2 < 64" "s3 < 64"
    unfolding s0_def s1_def s2_def s3_def v_def by (rule sextet_bounds [OF val_bound])+
  have asm: "assemble s0 s1 s2 s3 = [a, b, c]"
    unfolding s0_def s1_def s2_def s3_def v_def by (rule assemble_triple)
  show ?case
    unfolding enc using 1 by (simp add: decodeMap_enc sb asm)
next
  case (2 a b)
  define v where "v = byte a * 65536 + byte b * 256"
  define s0 where "s0 = v div 262144"
  define s1 where "s1 = v div 4096 mod 64"
  define s2 where "s2 = v div 64 mod 64"
  have enc: "EncodeToString [a, b] = [encodeStd ! s0, encodeStd ! s1, encodeStd ! s2, padChar]"
    unfolding s0_def s1_def s2_def v_def by (simp add: sextets_def)
  have sb: "s0 < 64" "s1 < 64" "s2 < 64"
    unfolding s0_def s1_def s2_def v_def by (rule sextet_bounds [OF val_bound2])+
  have asm: "take 2 (assemble s0 s1 s2 0) = [a, b]"
    unfolding s0_def s1_def s2_def v_def by (rule assemble_pair)
  show ?case
    unfolding enc by (simp add: decodeMap_enc sb decodeMap_padChar asm)
next
  case (3 a)
  define v where "v = byte a * 65536"
  define s0 where "s0 = v div 262144"
  define s1 where "s1 = v div 4096 mod 64"
  have enc: "EncodeToString [a] = [encodeStd ! s0, encodeStd ! s1, padChar, padChar]"
    unfolding s0_def s1_def v_def by (simp add: sextets_def)
  have sb: "s0 < 64" "s1 < 64"
    unfolding s0_def s1_def v_def by (rule sextet_bounds [OF val_bound1])+
  have asm: "take 1 (assemble s0 s1 0 0) = [a]"
    unfolding s0_def s1_def v_def by (rule assemble_single)
  show ?case
    unfolding enc using asm by (simp add: decodeMap_enc sb decodeMap_padChar)
next
  case 4
  show ?case by simp
qed

lemma encodeStd_no_newline: "c \<in> set encodeStd \<Longrightarrow> \<not> isNewline c"
  unfolding encodeStd_def isNewline_def byte_def by auto

lemma padChar_no_newline: "\<not> isNewline padChar"
  unfolding padChar_def isNewline_def byte_def by simp

lemma Encode_chars: "c \<in> set (EncodeToString s) \<Longrightarrow> c \<in> set encodeStd \<or> c = padChar"
proof (induction s arbitrary: c rule: EncodeToString.induct)
  case (1 a b c' rest)
  note sb = sextet_bounds [OF val_bound [of a b c']]
  show ?case using 1 sb by (auto simp: sextets_def length_encodeStd)
next
  case (2 a b)
  note sb = sextet_bounds [OF val_bound2 [of a b]]
  show ?case using 2 sb by (auto simp: sextets_def length_encodeStd)
next
  case (3 a)
  note sb = sextet_bounds [OF val_bound1 [of a]]
  show ?case using 3 sb by (auto simp: sextets_def length_encodeStd)
next
  case 4
  then show ?case by simp
qed

lemma Decode_Encode: "DecodeString (EncodeToString s) = Some s"
proof -
  have "filter (\<lambda>c. \<not> isNewline c) (EncodeToString s) = EncodeToString s"
    using Encode_chars encodeStd_no_newline padChar_no_newline
    by (auto simp: filter_id_conv)
  then show ?thesis by (simp add: DecodeString_def decodeQuanta_Encode)
qed

subsection \<open>\<open>ValidateProxyAuth\<close>\<close>

lemma SplitN2_colon:
  "sep \<notin> set user \<Longrightarrow> SplitN2 (user @ sep # rest) sep = [user, rest]"
proof -
  assume n: "sep \<notin> set user"
  have "takeWhile (\<lambda>c. c \<noteq> sep) (user @ sep # rest) = user"
    using n by (induction user) auto
  moreover have "dropWhile (\<lambda>c. c \<noteq> sep) (user @ sep # rest) = sep # rest"
    using n by (induction user) auto
  ultimately show ?thesis by (simp add: SplitN2_def)
qed

lemma SplitN2_length: "length (SplitN2 d sep) = 2 \<longleftrightarrow> sep \<in> set d"
  by (simp add: SplitN2_def)

lemma SplitN2_decompose:
  assumes "sep \<in> set d"
  shows "d = takeWhile (\<lambda>c. c \<noteq> sep) d @ sep # (SplitN2 d sep ! 1)
         \<and> sep \<notin> set (takeWhile (\<lambda>c. c \<noteq> sep) d)"
proof -
  let ?dw = "dropWhile (\<lambda>c. c \<noteq> sep) d"
  have ne: "?dw \<noteq> []" using assms by (simp add: dropWhile_eq_Nil_conv)
  then have "hd ?dw = sep" using hd_dropWhile [of "\<lambda>c. c \<noteq> sep" d] by simp
  then have "?dw = sep # tl ?dw" using ne by (metis list.collapse)
  moreover have "d = takeWhile (\<lambda>c. c \<noteq> sep) d @ ?dw" by simp
  moreover have "sep \<notin> set (takeWhile (\<lambda>c. c \<noteq> sep) d)"
    using set_takeWhileD by fastforce
  ultimately show ?thesis using assms by (simp add: SplitN2_def)
qed

lemma HasPrefix_append: "strings_HasPrefix (p @ s) p"
  by (simp add: strings_HasPrefix_def)

lemma HasPrefix_split: "strings_HasPrefix s p \<Longrightarrow> s = p @ drop (length p) s"
  by (metis append_take_drop_id strings_HasPrefix_def)

lemma Validate_iff:
  "ValidateProxyAuth token r \<longleftrightarrow>
     (\<exists>cred user. Header_Get (Header r) ''Proxy-Authorization'' = ''Basic '' @ cred
        \<and> DecodeString cred = Some (user @ '':'' @ token) \<and> CHR '':'' \<notin> set user)"
  (is "?L \<longleftrightarrow> ?R")
proof
  let ?pa = "Header_Get (Header r) ''Proxy-Authorization''"
  assume L: ?L
  then have pre: "strings_HasPrefix ?pa ''Basic ''"
    by (auto simp: ValidateProxyAuth_def Let_def split: if_splits)
  have eq: "?pa = ''Basic '' @ drop 6 ?pa" using HasPrefix_split [OF pre] by (simp add: eval_nat_numeral)
  from L pre obtain d where d: "DecodeString (drop 6 ?pa) = Some d"
    and len: "length (SplitN2 d (CHR '':'')) = 2" and tok: "SplitN2 d (CHR '':'') ! 1 = token"
    by (auto simp: ValidateProxyAuth_def Let_def split: if_splits option.splits)
  from len have "CHR '':'' \<in> set d" by (simp add: SplitN2_length)
  from SplitN2_decompose [OF this] tok
  have "d = takeWhile (\<lambda>c. c \<noteq> CHR '':'') d @ '':'' @ token"
    and "CHR '':'' \<notin> set (takeWhile (\<lambda>c. c \<noteq> CHR '':'') d)" by simp_all
  with d eq show ?R by metis
next
  assume ?R
  then obtain cred user where h: "Header_Get (Header r) ''Proxy-Authorization'' = ''Basic '' @ cred"
    and d: "DecodeString cred = Some (user @ '':'' @ token)" and u: "CHR '':'' \<notin> set user"
    by blast
  have "strings_HasPrefix (''Basic '' @ cred) ''Basic ''" by (rule HasPrefix_append)
  then show ?L
    using d SplitN2_colon [OF u, of token]
    by (simp add: ValidateProxyAuth_def h)
qed

lemma Get_absent:
  "Header r ''Proxy-Authorization'' = None \<Longrightarrow> Header_Get (Header r) ''Proxy-Authorization'' = []"
  by (simp add: Header_Get_def canon_proxy_keys)

lemma Validate_rejects:
  shows "Header r ''Proxy-Authorization'' = None \<Longrightarrow> \<not> ValidateProxyAuth token r"
    and "\<not> strings_HasPrefix (Header_Get (Header r) ''Proxy-Authorization'') ''Basic ''
           \<Longrightarrow> \<not> ValidateProxyAuth token r"
    and "Header_Get (Header r) ''Proxy-Authorization'' = ''Basic '' @ cred \<Longrightarrow>
         DecodeString cred = None \<Longrightarrow> \<not> ValidateProxyAuth token r"
    and "Header_Get (Header r) ''Proxy-Authorization'' = ''Basic '' @ cred \<Longrightarrow>
         DecodeString cred = Some d \<Longrightarrow> CHR '':'' \<notin> set d \<Longrightarrow> \<not> ValidateProxyAuth token r"
    and "Header_Get (Header r) ''Proxy-Authorization'' = ''Basic '' @ cred \<Longrightarrow>
         DecodeString cred = Some (user @ '':'' @ t) \<Longrightarrow> CHR '':'' \<notin> set user \<Longrightarrow>
         t \<noteq> token \<Longrightarrow> \<not> ValidateProxyAuth token r"
proof -
  show "Header r ''Proxy-Authorization'' = None \<Longrightarrow> \<not> ValidateProxyAuth token r"
    by (simp add: ValidateProxyAuth_def Get_absent)
  show "\<not> strings_HasPrefix (Header_Get (Header r) ''Proxy-Authorization'') ''Basic ''
           \<Longrightarrow> \<not> ValidateProxyAuth token r"
    by (simp add: ValidateProxyAuth_def Let_def)
  show "Header_Get (Header r) ''Proxy-Authorization'' = ''Basic '' @ cred \<Longrightarrow>
         DecodeString cred = None \<Longrightarrow> \<not> ValidateProxyAuth token r"
    by (simp add: ValidateProxyAuth_def)
  show "Header_Get (Header r) ''Proxy-Authorization'' = ''Basic '' @ cred \<Longrightarrow>
         DecodeString cred = Some d \<Longrightarrow> CHR '':'' \<notin> set d \<Longrightarrow> \<not> ValidateProxyAuth token r"
    by (simp add: ValidateProxyAuth_def SplitN2_def)
  show "Header_Get (Header r) ''Proxy-Authorization'' = ''Basic '' @ cred \<Longrightarrow>
         DecodeString cred = Some (user @ '':'' @ t) \<Longrightarrow> CHR '':'' \<notin> set user \<Longrightarrow>
         t \<noteq> token \<Longrightarrow> \<not> ValidateProxyAuth token r"
    using SplitN2_colon [of "CHR '':''" user t]
    by (simp add: ValidateProxyAuth_def)
qed

text \<open>
  Claim C6, as amended. \<open>ValidateProxyAuth\<close> returns true exactly when the header is
  \<open>Basic\<close>, a space, and text that \<open>StdEncoding\<close> decodes to a username without a colon,
  a colon, and the configured token: the decoded text is split at its first colon. So
  it accepts \<open>Basic base64(username:T)\<close> for every username that contains no colon, and
  rejects a missing header, a header that does not start with \<open>Basic\<close> and a space,
  undecodable base64, decoded text with no colon, and any text after the first colon
  that differs from the token.
\<close>

theorem ValidateProxyAuth_first_colon:
  "(ValidateProxyAuth token r \<longleftrightarrow>
      (\<exists>cred user. Header_Get (Header r) ''Proxy-Authorization'' = ''Basic '' @ cred
         \<and> DecodeString cred = Some (user @ '':'' @ token) \<and> CHR '':'' \<notin> set user))
   \<and> (CHR '':'' \<notin> set user
        \<and> Header_Get (Header r) ''Proxy-Authorization''
            = ''Basic '' @ EncodeToString (user @ '':'' @ token)
        \<longrightarrow> ValidateProxyAuth token r)
   \<and> (Header r ''Proxy-Authorization'' = None \<longrightarrow> \<not> ValidateProxyAuth token r)
   \<and> (\<not> strings_HasPrefix (Header_Get (Header r) ''Proxy-Authorization'') ''Basic ''
        \<longrightarrow> \<not> ValidateProxyAuth token r)
   \<and> (Header_Get (Header r) ''Proxy-Authorization'' = ''Basic '' @ cred
        \<and> DecodeString cred = None \<longrightarrow> \<not> ValidateProxyAuth token r)
   \<and> (Header_Get (Header r) ''Proxy-Authorization'' = ''Basic '' @ cred
        \<and> DecodeString cred = Some d \<and> CHR '':'' \<notin> set d \<longrightarrow> \<not> ValidateProxyAuth token r)
   \<and> (Header_Get (Header r) ''Proxy-Authorization'' = ''Basic '' @ cred
        \<and> DecodeString cred = Some (user @ '':'' @ t) \<and> CHR '':'' \<notin> set user
        \<and> t \<noteq> token \<longrightarrow> \<not> ValidateProxyAuth token r)"
proof (intro conjI impI)
  show "ValidateProxyAuth token r \<longleftrightarrow>
      (\<exists>cred user. Header_Get (Header r) ''Proxy-Authorization'' = ''Basic '' @ cred
         \<and> DecodeString cred = Some (user @ '':'' @ token) \<and> CHR '':'' \<notin> set user)"
    by (rule Validate_iff)
next
  assume "CHR '':'' \<notin> set user
        \<and> Header_Get (Header r) ''Proxy-Authorization''
            = ''Basic '' @ EncodeToString (user @ '':'' @ token)"
  then show "ValidateProxyAuth token r"
    unfolding Validate_iff using Decode_Encode by blast
qed (use Validate_rejects in blast)+

theorem ValidateProxyAuth_first_colon_witness:
  "ValidateProxyAuth ''secret''
      \<lparr>Method = ''CONNECT'', URL_Scheme = [], URL_Host = ''example.com:443'',
        Host = ''example.com:443'',
        Header = [''Proxy-Authorization'' \<mapsto> [''Basic '' @ EncodeToString ''alice:secret'']]\<rparr>
   \<and> \<not> ValidateProxyAuth ''secret''
      \<lparr>Method = ''CONNECT'', URL_Scheme = [], URL_Host = ''example.com:443'',
        Host = ''example.com:443'', Header = Map.empty\<rparr>"
proof -
  let ?r1 = "\<lparr>Method = ''CONNECT'', URL_Scheme = [], URL_Host = ''example.com:443'',
        Host = ''example.com:443'',
        Header = [''Proxy-Authorization'' \<mapsto> [''Basic '' @ EncodeToString ''alice:secret'']]\<rparr>"
  let ?r2 = "\<lparr>Method = ''CONNECT'', URL_Scheme = [], URL_Host = ''example.com:443'',
        Host = ''example.com:443'', Header = Map.empty\<rparr>"
  have h1: "CHR '':'' \<notin> set ''alice''
        \<and> Header_Get (Header ?r1) ''Proxy-Authorization''
            = ''Basic '' @ EncodeToString (''alice'' @ '':'' @ ''secret'')"
    by (simp add: Header_Get_def canon_proxy_keys)
  have h2: "Header ?r2 ''Proxy-Authorization'' = None" by simp
  from ValidateProxyAuth_first_colon [of "''secret''" ?r1 "''alice''"] h1
  have "ValidateProxyAuth ''secret'' ?r1" by blast
  moreover from ValidateProxyAuth_first_colon [of "''secret''" ?r2] h2
  have "\<not> ValidateProxyAuth ''secret'' ?r2" by blast
  ultimately show ?thesis by simp
qed

text \<open>
  The claim as stated fails for a username that contains a colon: the credentials
  \<open>a:b:T\<close> are the username \<open>a:b\<close> and the token \<open>T\<close>, and they are rejected.
\<close>

theorem ValidateProxyAuth_colon_username_counterexample:
  "\<not> ValidateProxyAuth ''T''
      \<lparr>Method = ''CONNECT'', URL_Scheme = [], URL_Host = ''example.com:443'',
        Host = ''example.com:443'',
        Header = [''Proxy-Authorization'' \<mapsto> [''Basic '' @ EncodeToString (''a:b'' @ '':'' @ ''T'')]]\<rparr>"
proof -
  let ?cred = "EncodeToString (''a:b'' @ '':'' @ ''T'')"
  let ?r = "\<lparr>Method = ''CONNECT'', URL_Scheme = [], URL_Host = ''example.com:443'',
        Host = ''example.com:443'',
        Header = [''Proxy-Authorization'' \<mapsto> [''Basic '' @ ?cred]]\<rparr>"
  have g: "Header_Get (Header ?r) ''Proxy-Authorization'' = ''Basic '' @ ?cred"
    by (simp add: Header_Get_def canon_proxy_keys)
  have "DecodeString ?cred = Some (''a:b'' @ '':'' @ ''T'')" by (rule Decode_Encode)
  then have d: "DecodeString ?cred = Some (''a'' @ '':'' @ ''b:T'')" by simp
  have u: "CHR '':'' \<notin> set ''a''" and t: "''b:T'' \<noteq> ''T''" by simp_all
  show ?thesis by (rule Validate_rejects(5) [OF g d u t])
qed

subsection \<open>Round tripper\<close>

lemma pool_logEvents: "h2ConnPool (logEvents rt evs) = h2ConnPool rt"
  by (simp add: logEvents_def)

lemma trace_logEvents: "trace (logEvents rt evs) = trace rt @ evs"
  by (simp add: logEvents_def)

lemma tlsTimeout_logEvents: "tlsTimeout (logEvents rt evs) = tlsTimeout rt"
  by (simp add: logEvents_def)

lemma dialUTLS_pool: "h2ConnPool (snd (dialUTLS net deadline addr rt)) = h2ConnPool rt"
  by (simp add: dialUTLS_def Let_def pool_logEvents split: option.splits)

lemma dialUTLS_trace:
  "\<exists>evs. trace (snd (dialUTLS net deadline addr rt)) = trace rt @ EvDial addr # evs"
  by (simp add: dialUTLS_def Let_def trace_logEvents split: option.splits)

lemma dialUTLS_fails:
  "dialFails net deadline addr rt \<Longrightarrow> isl (fst (dialUTLS net deadline addr rt))"
  by (auto simp: dialFails_def dialUTLS_def handshakeLimit_def Let_def split: option.splits)

lemma dialUTLS_succeeds:
  "\<not> dialFails net deadline addr rt \<Longrightarrow>
   \<exists>conn proto. dialContext net addr = Some conn \<and> handshakeProto net conn = Some proto
      \<and> dialUTLS net deadline addr rt
          = (Inr (conn, proto), logEvents rt [EvDial addr, EvHandshake conn])"
  by (auto simp: dialFails_def dialUTLS_def handshakeLimit_def Let_def split: option.splits)

lemma dialAndDispatch_fails:
  assumes "dialFails net deadline addr rt"
  shows "dialAndDispatch net deadline req addr rt = 
           (Inl (projl (fst (dialUTLS net deadline addr rt))), snd (dialUTLS net deadline addr rt))"
proof -
  obtain res rt' where d: "dialUTLS net deadline addr rt = (res, rt')" by (cases "dialUTLS net deadline addr rt")
  with dialUTLS_fails [OF assms] obtain err where "res = Inl err" by (cases res) auto
  with d show ?thesis by (simp add: dialAndDispatch_def)
qed

lemma dialAndDispatch_trace:
  "\<exists>evs. trace (snd (dialAndDispatch net deadline req addr rt)) = trace rt @ EvDial addr # evs"
proof -
  obtain res rt' where d: "dialUTLS net deadline addr rt = (res, rt')"
    by (cases "dialUTLS net deadline addr rt")
  from dialUTLS_trace [of net deadline addr rt] d
  obtain evs where t: "trace rt' = trace rt @ EvDial addr # evs" by auto
  show ?thesis
    using d t
    by (cases res)
      (auto simp: dialAndDispatch_def roundTripH2_def roundTripH1_def trace_logEvents
        split: option.splits sum.splits prod.splits)
qed

lemma handshakeLimit_evicted:
  "handshakeLimit deadline (logEvents (rt\<lparr>h2ConnPool := p\<rparr>) evs)
     = handshakeLimit deadline rt"
  by (cases deadline) (simp_all add: handshakeLimit_def logEvents_def)

lemma dialFails_evicted:
  "dialFails net deadline addr (logEvents (rt\<lparr>h2ConnPool := p\<rparr>) evs)
     = dialFails net deadline addr rt"
  by (simp add: dialFails_def handshakeLimit_evicted split: option.splits)

lemma dialAndDispatch_fails_pool:
  assumes "dialFails net deadline addr rt"
  shows "isl (fst (dialAndDispatch net deadline req addr rt))"
    and "h2ConnPool (snd (dialAndDispatch net deadline req addr rt)) = h2ConnPool rt"
  by (simp_all add: dialAndDispatch_fails [OF assms] dialUTLS_pool)

lemma newEvents_append: "trace rt' = trace rt @ evs \<Longrightarrow> newEvents rt rt' = evs"
  by (simp add: newEvents_def)

lemma RoundTrip_pooled_failure:
  assumes "URL_Scheme req = ''https''"
    and "h2ConnPool rt (RoundTrip_addr (URL_Host req)) = Some h2Conn"
    and "canTakeNewRequest net h2Conn"
    and "h2RoundTrip net h2Conn req = Inl err"
  shows "RoundTrip net deadline req rt =
           dialAndDispatch net deadline req (RoundTrip_addr (URL_Host req))
             (logEvents (rt\<lparr>h2ConnPool := (h2ConnPool rt)(RoundTrip_addr (URL_Host req) := None)\<rparr>)
                [EvH2RoundTrip h2Conn])"
  using assms by (simp add: RoundTrip_def Let_def)

lemma RoundTrip_no_session:
  assumes "URL_Scheme req = ''https''"
    and "h2ConnPool rt (RoundTrip_addr (URL_Host req)) = None
         \<or> (\<exists>h2Conn. h2ConnPool rt (RoundTrip_addr (URL_Host req)) = Some h2Conn
               \<and> \<not> canTakeNewRequest net h2Conn)"
  shows "RoundTrip net deadline req rt =
           dialAndDispatch net deadline req (RoundTrip_addr (URL_Host req)) rt"
  using assms by (auto simp: RoundTrip_def Let_def)

text \<open>
  Claim C5, as amended. The handshake's time limit is the context's deadline when the
  context has one (always, for a call through \<open>UTLSClient.Do\<close>) and \<open>tlsTimeout\<close>
  only otherwise. When the TCP dial fails, or the handshake fails or needs longer than
  that limit, \<open>dialUTLS\<close> returns an error and the pool is the one it found, at every
  key; so is the pool after the rest of \<open>RoundTrip\<close>, which returns the error. A call
  that found no usable pooled session therefore leaves the pool unchanged; a call that
  got here after a failed pooled round trip leaves exactly the pool without that entry,
  which the eviction, not the dial, removed.
\<close>

theorem failed_dial_leaves_pool:
  assumes "dialFails net deadline addr rt"
  shows "isl (fst (dialUTLS net deadline addr rt))
       \<and> h2ConnPool (snd (dialUTLS net deadline addr rt)) = h2ConnPool rt
       \<and> isl (fst (dialAndDispatch net deadline req addr rt))
       \<and> h2ConnPool (snd (dialAndDispatch net deadline req addr rt)) = h2ConnPool rt
       \<and> (URL_Scheme req = ''https'' \<and> addr = RoundTrip_addr (URL_Host req)
            \<and> (h2ConnPool rt addr = None
                 \<or> (\<exists>h2Conn. h2ConnPool rt addr = Some h2Conn \<and> \<not> canTakeNewRequest net h2Conn))
          \<longrightarrow> isl (fst (RoundTrip net deadline req rt))
              \<and> h2ConnPool (snd (RoundTrip net deadline req rt)) = h2ConnPool rt)
       \<and> (URL_Scheme req = ''https'' \<and> addr = RoundTrip_addr (URL_Host req)
            \<and> (\<exists>h2Conn err. h2ConnPool rt addr = Some h2Conn \<and> canTakeNewRequest net h2Conn
                   \<and> h2RoundTrip net h2Conn req = Inl err)
          \<longrightarrow> isl (fst (RoundTrip net deadline req rt))
              \<and> h2ConnPool (snd (RoundTrip net deadline req rt)) = (h2ConnPool rt)(addr := None))"
proof (intro conjI impI)
  show "isl (fst (dialUTLS net deadline addr rt))" by (rule dialUTLS_fails [OF assms])
  show "h2ConnPool (snd (dialUTLS net deadline addr rt)) = h2ConnPool rt" by (rule dialUTLS_pool)
  show "isl (fst (dialAndDispatch net deadline req addr rt))"
    by (rule dialAndDispatch_fails_pool [OF assms])
  show "h2ConnPool (snd (dialAndDispatch net deadline req addr rt)) = h2ConnPool rt"
    by (rule dialAndDispatch_fails_pool [OF assms])
next
  assume a: "URL_Scheme req = ''https'' \<and> addr = RoundTrip_addr (URL_Host req)
            \<and> (h2ConnPool rt addr = None
                 \<or> (\<exists>h2Conn. h2ConnPool rt addr = Some h2Conn \<and> \<not> canTakeNewRequest net h2Conn))"
  then have s: "URL_Scheme req = ''https''" and e: "addr = RoundTrip_addr (URL_Host req)"
    and n: "h2ConnPool rt (RoundTrip_addr (URL_Host req)) = None
         \<or> (\<exists>h2Conn. h2ConnPool rt (RoundTrip_addr (URL_Host req)) = Some h2Conn
               \<and> \<not> canTakeNewRequest net h2Conn)" by auto
  have "RoundTrip net deadline req rt = dialAndDispatch net deadline req addr rt"
    using RoundTrip_no_session [OF s n] e by simp
  then show "isl (fst (RoundTrip net deadline req rt))"
    and "h2ConnPool (snd (RoundTrip net deadline req rt)) = h2ConnPool rt"
    using dialAndDispatch_fails_pool [OF assms, of req] by simp_all
next
  assume a: "URL_Scheme req = ''https'' \<and> addr = RoundTrip_addr (URL_Host req)
            \<and> (\<exists>h2Conn err. h2ConnPool rt addr = Some h2Conn \<and> canTakeNewRequest net h2Conn
                   \<and> h2RoundTrip net h2Conn req = Inl err)"
  then obtain h2Conn err where p: "h2ConnPool rt (RoundTrip_addr (URL_Host req)) = Some h2Conn"
    "canTakeNewRequest net h2Conn" "h2RoundTrip net h2Conn req = Inl err" by auto
  let ?ev = "logEvents (rt\<lparr>h2ConnPool := (h2ConnPool rt)(addr := None)\<rparr>) [EvH2RoundTrip h2Conn]"
  have f: "dialFails net deadline addr ?ev" using assms by (simp add: dialFails_evicted)
  have "RoundTrip net deadline req rt = dialAndDispatch net deadline req addr ?ev"
    using RoundTrip_pooled_failure [OF _ p, of deadline] a by simp
  then show "isl (fst (RoundTrip net deadline req rt))"
    and "h2ConnPool (snd (RoundTrip net deadline req rt)) = (h2ConnPool rt)(addr := None)"
    using dialAndDispatch_fails_pool [OF f, of req] by (simp_all add: pool_logEvents)
qed

theorem failed_dial_leaves_pool_witness:
  "dialFails exNetDown (Some 30000) ''example.com:443'' newUTLSRoundTripper
   \<and> fst (RoundTrip exNetDown (Some 30000) exRequest newUTLSRoundTripper) = Inl TCPDialFailed
   \<and> h2ConnPool (snd (RoundTrip exNetDown (Some 30000) exRequest newUTLSRoundTripper))
       = Map.empty
   \<and> dialFails exNetSlow (Some 30000) ''example.com:443'' exPooled
   \<and> fst (dialUTLS exNetSlow (Some 30000) ''example.com:443'' exPooled)
       = Inl (TLSHandshakeFailed DeadlineExceeded)
   \<and> h2ConnPool (snd (dialUTLS exNetSlow (Some 30000) ''example.com:443'' exPooled))
       = h2ConnPool exPooled"
proof -
  have f: "dialFails exNetDown (Some 30000) ''example.com:443'' newUTLSRoundTripper"
    by (simp add: dialFails_def exNetDown_def exNet_def)
  have a: "RoundTrip_addr (URL_Host exRequest) = ''example.com:443''"
    by (simp add: RoundTrip_addr_def exRequest_def Contains_byte)
  have h: "URL_Scheme exRequest = ''https'' \<and> ''example.com:443'' = RoundTrip_addr (URL_Host exRequest)
            \<and> (h2ConnPool newUTLSRoundTripper ''example.com:443'' = None
                 \<or> (\<exists>h2Conn. h2ConnPool newUTLSRoundTripper ''example.com:443'' = Some h2Conn
                       \<and> \<not> canTakeNewRequest exNetDown h2Conn))"
    by (simp add: a) (simp add: exRequest_def newUTLSRoundTripper_def)
  have e: "fst (RoundTrip exNetDown (Some 30000) exRequest newUTLSRoundTripper) = Inl TCPDialFailed"
    using a
    by (simp add: RoundTrip_def Let_def dialAndDispatch_def dialUTLS_def
        exRequest_def newUTLSRoundTripper_def exNetDown_def exNet_def)
  from failed_dial_leaves_pool [OF f, of exRequest] h
  have p: "h2ConnPool (snd (RoundTrip exNetDown (Some 30000) exRequest newUTLSRoundTripper))
          = h2ConnPool newUTLSRoundTripper" by blast
  have s: "dialFails exNetSlow (Some 30000) ''example.com:443'' exPooled"
    by (simp add: dialFails_def handshakeLimit_def exNetSlow_def exNet_def)
  have t: "fst (dialUTLS exNetSlow (Some 30000) ''example.com:443'' exPooled)
             = Inl (TLSHandshakeFailed DeadlineExceeded)"
    by (simp add: dialUTLS_def exNetSlow_def exNet_def)
  from failed_dial_leaves_pool [OF s, of exRequest]
  have q: "h2ConnPool (snd (dialUTLS exNetSlow (Some 30000) ''example.com:443'' exPooled))
             = h2ConnPool exPooled" by blast
  from f e p s t q show ?thesis by (simp add: newUTLSRoundTripper_def)
qed

text \<open>
  The claim as stated fails for a handshake that exceeds the configured timeout while
  the context's deadline is later. A call through \<open>Do\<close> with no deadline of its own
  gets 30 seconds; a handshake of 11 seconds, longer than the 10 seconds of
  \<open>tlsTimeout\<close>, then completes: the call returns the response and the pool gains
  an entry for the key.
\<close>

theorem handshake_over_tlsTimeout_counterexample:
  "tlsTimeout newUTLSRoundTripper = 10000
   \<and> handshakeMillis exNetEleven 2 = 11000
   \<and> h2ConnPool newUTLSRoundTripper ''example.com:443'' = None
   \<and> fst (UTLSClient_Do exNetEleven GetRandomFingerprint None exRequest newUTLSRoundTripper)
       = Inr exResponse
   \<and> h2ConnPool (snd (UTLSClient_Do exNetEleven GetRandomFingerprint None exRequest
         newUTLSRoundTripper)) ''example.com:443'' = Some 3"
proof -
  let ?req = "exRequest\<lparr>Header := Header_Set (Header exRequest) ''User-Agent''
                           (UserAgent GetRandomFingerprint)\<rparr>"
  have d: "UTLSClient_Do exNetEleven GetRandomFingerprint None exRequest newUTLSRoundTripper
             = RoundTrip exNetEleven (Some 30000) ?req newUTLSRoundTripper"
    by (simp add: UTLSClient_Do_def Let_def exRequest_def Header_Get_def)
  have a: "RoundTrip_addr (URL_Host ?req) = ''example.com:443''"
    by (simp add: RoundTrip_addr_def exRequest_def Contains_byte)
  have s: "URL_Scheme ?req = ''https''" by (simp add: exRequest_def)
  have r: "RoundTrip exNetEleven (Some 30000) ?req newUTLSRoundTripper =
           dialAndDispatch exNetEleven (Some 30000) ?req ''example.com:443'' newUTLSRoundTripper"
    using RoundTrip_no_session [of ?req newUTLSRoundTripper exNetEleven "Some 30000"] a s
    by (simp add: newUTLSRoundTripper_def)
  have u: "\<And>rt. dialUTLS exNetEleven (Some 30000) ''example.com:443'' rt
             = (Inr (2, ''h2''), logEvents rt [EvDial ''example.com:443'', EvHandshake 2])"
    by (simp add: dialUTLS_def exNetEleven_def exNet_def Let_def)
  have n: "newClientConn exNetEleven 2 = Some 3" "h2RoundTrip exNetEleven 3 ?req = Inr exResponse"
    "handshakeMillis exNetEleven 2 = 11000"
    by (simp_all add: exNetEleven_def exNet_def)
  show ?thesis
    unfolding d r
    by (simp add: dialAndDispatch_def u roundTripH2_def n logEvents_def newUTLSRoundTripper_def)
qed

lemma exAddr: "RoundTrip_addr (URL_Host exRequest) = ''example.com:443''"
  by (simp add: RoundTrip_addr_def exRequest_def Contains_byte)

lemma exScheme: "URL_Scheme exRequest = ''https''"
  by (simp add: exRequest_def)

lemma exPooled_entry:
  "h2ConnPool exPooled ''example.com:443'' = Some 1 \<and> canTakeNewRequest exNet 1
   \<and> h2RoundTrip exNet 1 exRequest = Inl (RequestFailed 0)"
  by (simp add: exPooled_def newUTLSRoundTripper_def exNet_def)

lemma exNet_dial:
  "dialUTLS exNet (Some 30000) ''example.com:443'' rt
     = (Inr (2, ''h2''), logEvents rt [EvDial ''example.com:443'', EvHandshake 2])"
  by (simp add: dialUTLS_def exNet_def Let_def)

lemma exNetNoSession_dial:
  "dialUTLS exNetNoSession (Some 30000) ''example.com:443'' rt
     = (Inr (2, ''h2''), logEvents rt [EvDial ''example.com:443'', EvHandshake 2])"
  by (simp add: dialUTLS_def exNetNoSession_def exNet_def Let_def)

text \<open>
  Claim C1, as amended. When a pooled session with spare capacity fails the round trip,
  the entry is evicted and the same \<open>RoundTrip\<close> call goes on to dial and handshake
  afresh for that destination: the call behaves as the dial path started on the pool
  without the entry, its trace shows the failed round trip followed at once by the
  dial, and what it returns is the outcome of the fresh attempt. When the fresh dial
  or handshake fails too, the call returns an error and the entry stays evicted.
\<close>

theorem pooled_failure_evicts_and_redials:
  assumes "URL_Scheme req = ''https''"
    and "addr = RoundTrip_addr (URL_Host req)"
    and "h2ConnPool rt addr = Some h2Conn"
    and "canTakeNewRequest net h2Conn"
    and "h2RoundTrip net h2Conn req = Inl err"
  shows "RoundTrip net deadline req rt =
           dialAndDispatch net deadline req addr
             (logEvents (rt\<lparr>h2ConnPool := (h2ConnPool rt)(addr := None)\<rparr>) [EvH2RoundTrip h2Conn])
       \<and> (\<exists>evs. newEvents rt (snd (RoundTrip net deadline req rt))
                   = EvH2RoundTrip h2Conn # EvDial addr # evs)
       \<and> (dialFails net deadline addr rt \<longrightarrow>
             isl (fst (RoundTrip net deadline req rt))
             \<and> h2ConnPool (snd (RoundTrip net deadline req rt)) = (h2ConnPool rt)(addr := None))"
proof -
  let ?ev = "logEvents (rt\<lparr>h2ConnPool := (h2ConnPool rt)(addr := None)\<rparr>) [EvH2RoundTrip h2Conn]"
  have eq: "RoundTrip net deadline req rt = dialAndDispatch net deadline req addr ?ev"
    using RoundTrip_pooled_failure [of req rt h2Conn net err deadline] assms by simp
  obtain evs where "trace (snd (dialAndDispatch net deadline req addr ?ev))
                      = trace ?ev @ EvDial addr # evs"
    using dialAndDispatch_trace by blast
  then have "trace (snd (RoundTrip net deadline req rt))
               = trace rt @ (EvH2RoundTrip h2Conn # EvDial addr # evs)"
    by (simp add: eq trace_logEvents)
  then have ev: "newEvents rt (snd (RoundTrip net deadline req rt))
                   = EvH2RoundTrip h2Conn # EvDial addr # evs"
    by (rule newEvents_append)
  have "dialFails net deadline addr rt \<longrightarrow>
             isl (fst (RoundTrip net deadline req rt))
             \<and> h2ConnPool (snd (RoundTrip net deadline req rt)) = (h2ConnPool rt)(addr := None)"
  proof
    assume "dialFails net deadline addr rt"
    then have f: "dialFails net deadline addr ?ev" by (simp add: dialFails_evicted)
    show "isl (fst (RoundTrip net deadline req rt))
             \<and> h2ConnPool (snd (RoundTrip net deadline req rt)) = (h2ConnPool rt)(addr := None)"
      using dialAndDispatch_fails_pool [OF f, of req] by (simp add: eq pool_logEvents)
  qed
  with eq ev show ?thesis by blast
qed

theorem pooled_failure_evicts_and_redials_witness:
  "h2ConnPool exPooled ''example.com:443'' = Some 1 \<and> canTakeNewRequest exNet 1
   \<and> h2RoundTrip exNet 1 exRequest = Inl (RequestFailed 0)
   \<and> RoundTrip exNet (Some 30000) exRequest exPooled =
       dialAndDispatch exNet (Some 30000) exRequest ''example.com:443''
         (logEvents (exPooled\<lparr>h2ConnPool := (h2ConnPool exPooled)(''example.com:443'' := None)\<rparr>)
            [EvH2RoundTrip 1])"
proof -
  have a: "h2ConnPool exPooled ''example.com:443'' = Some 1"
    and b: "canTakeNewRequest exNet 1"
    and c: "h2RoundTrip exNet 1 exRequest = Inl (RequestFailed 0)"
    using exPooled_entry by blast+
  from pooled_failure_evicts_and_redials [OF exScheme exAddr [symmetric] a b c, of "Some 30000"]
  have "RoundTrip exNet (Some 30000) exRequest exPooled =
       dialAndDispatch exNet (Some 30000) exRequest ''example.com:443''
         (logEvents (exPooled\<lparr>h2ConnPool := (h2ConnPool exPooled)(''example.com:443'' := None)\<rparr>)
            [EvH2RoundTrip 1])" by blast
  with a b c show ?thesis by blast
qed

text \<open>
  The claim as stated fails: with a pooled session whose round trip fails and a server
  that answers a fresh connection, the call does not return the failure. It dials and
  handshakes within the same call, stores the new session and returns its response.
\<close>

theorem pooled_failure_retries_counterexample:
  "h2ConnPool exPooled ''example.com:443'' = Some 1 \<and> canTakeNewRequest exNet 1
   \<and> h2RoundTrip exNet 1 exRequest = Inl (RequestFailed 0)
   \<and> fst (RoundTrip exNet (Some 30000) exRequest exPooled) = Inr exResponse
   \<and> newEvents exPooled (snd (RoundTrip exNet (Some 30000) exRequest exPooled))
       = [EvH2RoundTrip 1, EvDial ''example.com:443'', EvHandshake 2, EvNewClientConn 2,
          EvH2RoundTrip 3]
   \<and> h2ConnPool (snd (RoundTrip exNet (Some 30000) exRequest exPooled)) ''example.com:443'' = Some 3"
proof -
  have r: "RoundTrip exNet (Some 30000) exRequest exPooled =
       dialAndDispatch exNet (Some 30000) exRequest ''example.com:443''
         (logEvents (exPooled\<lparr>h2ConnPool := (h2ConnPool exPooled)(''example.com:443'' := None)\<rparr>)
            [EvH2RoundTrip 1])"
    using RoundTrip_pooled_failure [of exRequest exPooled 1 exNet "RequestFailed 0" "Some 30000"]
      exPooled_entry exAddr exScheme by simp
  have n: "newClientConn exNet 2 = Some 3" "h2RoundTrip exNet 3 exRequest = Inr exResponse"
    by (simp_all add: exNet_def)
  show ?thesis
    unfolding r using exPooled_entry
    by (simp add: dialAndDispatch_def exNet_dial roundTripH2_def n
        newEvents_def logEvents_def)
qed

text \<open>
  Claim C4, as amended. After a completed handshake the call branches on the negotiated
  protocol. For \<open>h2\<close> it tries to wrap the connection in an HTTP/2 session: when that
  succeeds the session is stored in the pool under the destination key and the request
  is issued on it; when it fails the connection is closed, nothing is stored and an
  error is returned without the request being issued. For \<open>http/1.1\<close> or the empty
  string the request is issued over the open connection, with no further dial or
  handshake and no change to the pool. Any other value closes the connection at once
  and returns an unsupported-protocol error. So the request is issued exactly for
  \<open>http/1.1\<close>, the empty string, and \<open>h2\<close> with a session that could be set up.
\<close>

theorem alpn_dispatch:
  assumes "dialUTLS net deadline addr rt = (Inr (conn, proto), rt')"
  shows "(proto = ''h2'' \<longrightarrow>
            (\<forall>h2Conn. newClientConn net conn = Some h2Conn \<longrightarrow>
               dialAndDispatch net deadline req addr rt =
                 (h2RoundTrip net h2Conn req,
                  logEvents (rt'\<lparr>h2ConnPool := (h2ConnPool rt')(addr \<mapsto> h2Conn)\<rparr>)
                    [EvNewClientConn conn, EvH2RoundTrip h2Conn]))
            \<and> (newClientConn net conn = None \<longrightarrow>
               dialAndDispatch net deadline req addr rt =
                 (Inl H2ConnFailed, logEvents rt' [EvNewClientConn conn, EvClose conn])))
       \<and> (proto = ''http/1.1'' \<or> proto = [] \<longrightarrow>
            dialAndDispatch net deadline req addr rt = roundTripH1 net req conn rt'
            \<and> fst (dialAndDispatch net deadline req addr rt) = h1RoundTrip net conn req
            \<and> h2ConnPool (snd (dialAndDispatch net deadline req addr rt)) = h2ConnPool rt
            \<and> (\<exists>evs. newEvents rt' (snd (dialAndDispatch net deadline req addr rt))
                         = EvH1RoundTrip conn # evs \<and> \<not> list_ex isDialEvent evs))
       \<and> (proto \<noteq> ''h2'' \<and> proto \<noteq> ''http/1.1'' \<and> proto \<noteq> [] \<longrightarrow>
            dialAndDispatch net deadline req addr rt =
              (Inl (UnsupportedProtocol proto), logEvents rt' [EvClose conn]))
       \<and> (list_ex isRequestEvent (newEvents rt' (snd (dialAndDispatch net deadline req addr rt)))
            \<longleftrightarrow> (proto = ''h2'' \<and> newClientConn net conn \<noteq> None)
                \<or> proto = ''http/1.1'' \<or> proto = [])"
proof -
  have p: "h2ConnPool rt' = h2ConnPool rt"
    using dialUTLS_pool [of net deadline addr rt] assms by simp
  have h1: "\<exists>evs. newEvents rt' (snd (roundTripH1 net req conn rt')) = EvH1RoundTrip conn # evs
              \<and> \<not> list_ex isDialEvent evs \<and> h2ConnPool (snd (roundTripH1 net req conn rt')) = h2ConnPool rt'
              \<and> fst (roundTripH1 net req conn rt') = h1RoundTrip net conn req"
    by (cases "h1RoundTrip net conn req")
       (simp_all add: roundTripH1_def newEvents_def logEvents_def)
  show ?thesis
  proof (intro conjI impI allI)
    fix h2Conn
    assume "proto = ''h2''" "newClientConn net conn = Some h2Conn"
    then show "dialAndDispatch net deadline req addr rt =
                 (h2RoundTrip net h2Conn req,
                  logEvents (rt'\<lparr>h2ConnPool := (h2ConnPool rt')(addr \<mapsto> h2Conn)\<rparr>)
                    [EvNewClientConn conn, EvH2RoundTrip h2Conn])"
      by (simp add: dialAndDispatch_def assms roundTripH2_def)
  next
    assume "proto = ''h2''" "newClientConn net conn = None"
    then show "dialAndDispatch net deadline req addr rt =
                 (Inl H2ConnFailed, logEvents rt' [EvNewClientConn conn, EvClose conn])"
      by (simp add: dialAndDispatch_def assms roundTripH2_def)
  next
    assume a: "proto = ''http/1.1'' \<or> proto = []"
    then show d: "dialAndDispatch net deadline req addr rt = roundTripH1 net req conn rt'"
      by (auto simp: dialAndDispatch_def assms)
    show "fst (dialAndDispatch net deadline req addr rt) = h1RoundTrip net conn req"
      using h1 d by auto
    show "h2ConnPool (snd (dialAndDispatch net deadline req addr rt)) = h2ConnPool rt"
      using h1 d p by auto
    show "\<exists>evs. newEvents rt' (snd (dialAndDispatch net deadline req addr rt))
                         = EvH1RoundTrip conn # evs \<and> \<not> list_ex isDialEvent evs"
      using h1 d by auto
  next
    assume "proto \<noteq> ''h2'' \<and> proto \<noteq> ''http/1.1'' \<and> proto \<noteq> []"
    then show "dialAndDispatch net deadline req addr rt =
              (Inl (UnsupportedProtocol proto), logEvents rt' [EvClose conn])"
      by (simp add: dialAndDispatch_def assms)
  next
    show "list_ex isRequestEvent (newEvents rt' (snd (dialAndDispatch net deadline req addr rt)))
            \<longleftrightarrow> (proto = ''h2'' \<and> newClientConn net conn \<noteq> None)
                \<or> proto = ''http/1.1'' \<or> proto = []"
      by (cases "h1RoundTrip net conn req"; cases "newClientConn net conn")
         (auto simp: dialAndDispatch_def assms roundTripH2_def roundTripH1_def newEvents_def
           logEvents_def)
  qed
qed

theorem alpn_dispatch_witness:
  "dialUTLS exNet (Some 30000) ''example.com:443'' newUTLSRoundTripper
     = (Inr (2, ''h2''), logEvents newUTLSRoundTripper [EvDial ''example.com:443'', EvHandshake 2])
   \<and> fst (dialAndDispatch exNet (Some 30000) exRequest ''example.com:443'' newUTLSRoundTripper)
       = Inr exResponse
   \<and> h2ConnPool (snd (dialAndDispatch exNet (Some 30000) exRequest ''example.com:443''
         newUTLSRoundTripper)) ''example.com:443'' = Some 3"
proof -
  have n: "newClientConn exNet 2 = Some 3" "h2RoundTrip exNet 3 exRequest = Inr exResponse"
    by (simp_all add: exNet_def)
  from alpn_dispatch [OF exNet_dial [of newUTLSRoundTripper], of exRequest] n
  have "dialAndDispatch exNet (Some 30000) exRequest ''example.com:443'' newUTLSRoundTripper =
          (Inr exResponse,
           logEvents ((logEvents newUTLSRoundTripper [EvDial ''example.com:443'', EvHandshake 2])
               \<lparr>h2ConnPool := (h2ConnPool (logEvents newUTLSRoundTripper
                    [EvDial ''example.com:443'', EvHandshake 2]))(''example.com:443'' \<mapsto> 3)\<rparr>)
             [EvNewClientConn 2, EvH2RoundTrip 3])"
    by simp
  then show ?thesis by (simp add: exNet_dial pool_logEvents)
qed

text \<open>
  The claim as stated fails when \<open>h2\<close> is negotiated and the HTTP/2 session cannot be
  set up: the handshake completed, yet no request is issued and no session is stored.
\<close>

theorem alpn_h2_session_failure_counterexample:
  "fst (dialUTLS exNetNoSession (Some 30000) ''example.com:443'' newUTLSRoundTripper) = Inr (2, ''h2'')
   \<and> fst (RoundTrip exNetNoSession (Some 30000) exRequest newUTLSRoundTripper) = Inl H2ConnFailed
   \<and> trace (snd (RoundTrip exNetNoSession (Some 30000) exRequest newUTLSRoundTripper))
       = [EvDial ''example.com:443'', EvHandshake 2, EvNewClientConn 2, EvClose 2]
   \<and> \<not> list_ex isRequestEvent
         (trace (snd (RoundTrip exNetNoSession (Some 30000) exRequest newUTLSRoundTripper)))
   \<and> h2ConnPool (snd (RoundTrip exNetNoSession (Some 30000) exRequest newUTLSRoundTripper))
        ''example.com:443'' = None"
proof -
  have r: "RoundTrip exNetNoSession (Some 30000) exRequest newUTLSRoundTripper =
           dialAndDispatch exNetNoSession (Some 30000) exRequest ''example.com:443'' newUTLSRoundTripper"
    using RoundTrip_no_session [of exRequest newUTLSRoundTripper exNetNoSession "Some 30000"]
      exAddr exScheme by (simp add: newUTLSRoundTripper_def)
  have n: "newClientConn exNetNoSession 2 = None"
    by (simp add: exNetNoSession_def)
  show ?thesis
    unfolding r
    by (simp add: dialAndDispatch_def exNetNoSession_dial roundTripH2_def n logEvents_def
        newUTLSRoundTripper_def)
qed

subsection \<open>Authentication gate\<close>

lemma canon_proxy_authenticate:
  "CanonicalMIMEHeaderKey ''Proxy-Authenticate'' = ''Proxy-Authenticate''"
  "CanonicalMIMEHeaderKey ''Content-Type'' = ''Content-Type''"
  by code_simp+

lemma Reject407_status: "W_Status w = None \<Longrightarrow> W_Status (Reject407 w) = Some 407"
  by (simp add: Reject407_def Write_def WriteHeader_def Let_def)

lemma Reject407_challenge:
  "Header_Get (W_Header (Reject407 w)) ''Proxy-Authenticate''
     = ''Basic realm='' @ [dquote] @ ''Strike2'' @ [dquote]"
  by (simp add: Reject407_def Write_def WriteHeader_def Let_def Header_Get_def Header_Set_def
      canon_proxy_authenticate split: option.splits)

text \<open>
  Claim C2, as amended. When the proxy handler is enabled and a token is configured,
  every \<open>CONNECT\<close> request and every absolute-URL request is checked before dispatch:
  if \<open>ValidateProxyAuth\<close> fails, the client gets status 407 with the
  \<open>Proxy-Authenticate\<close> challenge and the proxy handler is not run, so there is no
  dial and no round trip; if it passes, the request goes to the proxy handler. With no
  token configured there is no check.
\<close>

theorem auth_gate_rejects_with_407:
  assumes "Method r = ''CONNECT'' \<or> URL_Scheme r \<noteq> []"
    and "proxyHandler h = Some ph"
    and "simpleAuth h = Some token"
  shows "(\<not> ValidateProxyAuth token r \<longrightarrow>
            combinedHandler_ServeHTTP h w r = (Reject407 w, [])
            \<and> (W_Status w = None \<longrightarrow> W_Status (Reject407 w) = Some 407)
            \<and> Header_Get (W_Header (Reject407 w)) ''Proxy-Authenticate''
                = ''Basic realm='' @ [dquote] @ ''Strike2'' @ [dquote])
       \<and> (ValidateProxyAuth token r \<longrightarrow> combinedHandler_ServeHTTP h w r = ph w r)"
  using assms
  by (auto simp: combinedHandler_ServeHTTP_def authRejects_def Reject407_status
      Reject407_challenge)

theorem auth_gate_rejects_with_407_witness:
  "combinedHandler_ServeHTTP
     \<lparr>apiRouter = exApiRouter, proxyHandler = Some exProxyHandler,
       simpleAuth = New_simpleAuth [] ''secret''\<rparr> freshWriter exConnect
     = (Reject407 freshWriter, [])
   \<and> W_Status (Reject407 freshWriter) = Some 407"
proof -
  let ?h = "\<lparr>apiRouter = exApiRouter, proxyHandler = Some exProxyHandler,
             simpleAuth = New_simpleAuth [] ''secret''\<rparr>"
  have m: "Method exConnect = ''CONNECT'' \<or> URL_Scheme exConnect \<noteq> []"
    by (simp add: exConnect_def)
  have p: "proxyHandler ?h = Some exProxyHandler" by simp
  have a: "simpleAuth ?h = Some ''secret''" by (simp add: New_simpleAuth_def NewSimpleAuth_def)
  have v: "\<not> ValidateProxyAuth ''secret'' exConnect"
    by (rule Validate_rejects(1)) (simp add: exConnect_def)
  have s: "W_Status freshWriter = None" by (simp add: freshWriter_def)
  from auth_gate_rejects_with_407 [OF m p a, of freshWriter] v s
  show ?thesis by blast
qed

text \<open>
  The claim as stated fails when no token is configured: \<open>New\<close> builds no
  authenticator, and a \<open>CONNECT\<close> request without credentials is handed to the proxy
  handler, which dials; the client gets no 407.
\<close>

theorem auth_gate_disabled_counterexample:
  "Header exConnect ''Proxy-Authorization'' = None
   \<and> combinedHandler_ServeHTTP
       \<lparr>apiRouter = exApiRouter, proxyHandler = Some exProxyHandler,
         simpleAuth = New_simpleAuth [] []\<rparr> freshWriter exConnect
     = (freshWriter\<lparr>W_Status := Some 200\<rparr>, [EvDial ''example.com:443''])"
  by (simp add: combinedHandler_ServeHTTP_def authRejects_def New_simpleAuth_def exConnect_def
      exProxyHandler_def WriteHeader_def freshWriter_def handleConnect_targetAddr_def
      Contains_byte)

subsection \<open>Body limit and gzip\<close>


lemma readAllLimited_short:
  "length data < n \<Longrightarrow> readAllLimited n (data, None) = Inr data"
  by (simp add: readAllLimited_def)

lemma FetchURL_success:
  assumes "acquired env"
    and "requestError env (if Req_Method req = [] then ''GET'' else Req_Method req) (Req_URL req)
           = None"
    and "send env (if Req_Method req = [] then ''GET'' else Req_Method req) req = Inr resp"
    and "readAllLimited bodyLimit (FetchURL_reader env resp) = Inr bodyBytes"
  shows "FetchURL env req =
           \<lparr>URL = Req_URL req, StatusCode = Resp_StatusCode resp,
            Headers = flattenHeaders (Resp_Header resp), Body = bodyBytes, Error = []\<rparr>"
  using assms by (simp add: FetchURL_def Let_def)

lemma canon_content_encoding:
  "CanonicalMIMEHeaderKey ''Content-Encoding'' = ''Content-Encoding''"
  by code_simp

lemma exFetchEnv_simps:
  "acquired (exFetchEnv resp)" "requestError (exFetchEnv resp) m u = None"
  "send (exFetchEnv resp) m r = Inr resp"
  by (simp_all add: exFetchEnv_def)




lemma gzip_decoded_body:
  assumes "acquired env"
    and "requestError env (if Req_Method req = [] then ''GET'' else Req_Method req) (Req_URL req)
           = None"
    and "send env (if Req_Method req = [] then ''GET'' else Req_Method req) req = Inr resp"
    and "Header_Get (Resp_Header resp) ''Content-Encoding'' = ''gzip''"
    and "gzipHeaderOK env (Resp_Body resp)"
    and "gunzip env (Resp_Body resp) (Resp_BodyErr resp) = (data, None)"
  shows "Error (FetchURL env req) = [] \<and> Body (FetchURL env req) = take bodyLimit data"
proof -
  have "readAllLimited bodyLimit (FetchURL_reader env resp) = Inr (take bodyLimit data)"
    using assms(4-6) by (simp add: FetchURL_reader_def readAllLimited_def)
  from FetchURL_success [OF assms(1-3) this] show ?thesis by simp
qed

lemma gzip_fallback_body:
  assumes "acquired env"
    and "requestError env (if Req_Method req = [] then ''GET'' else Req_Method req) (Req_URL req)
           = None"
    and "send env (if Req_Method req = [] then ''GET'' else Req_Method req) req = Inr resp"
    and "Header_Get (Resp_Header resp) ''Content-Encoding'' = ''gzip''"
    and "\<not> gzipHeaderOK env (Resp_Body resp)"
    and "Resp_BodyErr resp = None"
  shows "Error (FetchURL env req) = []
       \<and> Body (FetchURL env req)
           = take bodyLimit (drop (gzipPulled env (Resp_Body resp)) (Resp_Body resp))"
proof -
  have "readAllLimited bodyLimit (FetchURL_reader env resp)
          = Inr (take bodyLimit (drop (gzipPulled env (Resp_Body resp)) (Resp_Body resp)))"
    using assms(4-6) by (simp add: FetchURL_reader_def readAllLimited_def)
  from FetchURL_success [OF assms(1-3) this] show ?thesis by simp
qed

lemma gzip_fallback_not_raw:
  assumes "acquired env"
    and "requestError env (if Req_Method req = [] then ''GET'' else Req_Method req) (Req_URL req)
           = None"
    and "send env (if Req_Method req = [] then ''GET'' else Req_Method req) req = Inr resp"
    and "Header_Get (Resp_Header resp) ''Content-Encoding'' = ''gzip''"
    and "\<not> gzipHeaderOK env (Resp_Body resp)"
    and "Resp_BodyErr resp = None"
    and "Resp_Body resp \<noteq> []" and "0 < gzipPulled env (Resp_Body resp)"
    and "length (Resp_Body resp) \<le> bodyLimit"
  shows "Body (FetchURL env req) \<noteq> Resp_Body resp"
proof -
  have "length (Body (FetchURL env req)) < length (Resp_Body resp)"
    using gzip_fallback_body [OF assms(1-6)] assms(7-9) by simp
  then show ?thesis by auto
qed

text \<open>
  Claim C10. For a response that announces gzip but whose body is no gzip stream,
  \<open>FetchURL\<close> reports no error, as the claim says, but the body it returns is not the
  raw bytes: \<open>gzip.NewReader\<close> has already taken the start of the stream into its
  buffer when it rejects the header, and the fallback reads only what is left. Here
  the thirteen raw bytes arrive in one read and the result body is empty.
\<close>

theorem gzip_fallback_drops_pulled_bytes:
  "Header_Get (Resp_Header exNotGzip) ''Content-Encoding'' = ''gzip''
   \<and> \<not> gzipHeaderOK (exFetchEnv exNotGzip) (Resp_Body exNotGzip)
   \<and> Resp_Body exNotGzip = ''not gzip data''
   \<and> Error (FetchURL (exFetchEnv exNotGzip) exFetchRequest) = []
   \<and> Body (FetchURL (exFetchEnv exNotGzip) exFetchRequest) = []"
proof -
  have g: "Header_Get (Resp_Header exNotGzip) ''Content-Encoding'' = ''gzip''"
    by (simp add: exNotGzip_def Header_Get_def canon_content_encoding)
  have n: "\<not> gzipHeaderOK (exFetchEnv exNotGzip) (Resp_Body exNotGzip)"
    by (simp add: exFetchEnv_def exNotGzip_def byte_def)
  have b: "Resp_Body exNotGzip = ''not gzip data''" "Resp_BodyErr exNotGzip = None"
    by (simp_all add: exNotGzip_def)
  have p: "gzipPulled (exFetchEnv exNotGzip) ''not gzip data'' = 13"
    by (simp add: exFetchEnv_def)
  from gzip_fallback_body [of "exFetchEnv exNotGzip" exFetchRequest exNotGzip, OF _ _ _ g n b(2)]
    exFetchEnv_simps
  have "Error (FetchURL (exFetchEnv exNotGzip) exFetchRequest) = []
       \<and> Body (FetchURL (exFetchEnv exNotGzip) exFetchRequest)
           = take bodyLimit (drop (gzipPulled (exFetchEnv exNotGzip) (Resp_Body exNotGzip))
               (Resp_Body exNotGzip))" by simp
  then show ?thesis using g n b(1) by (simp add: p)
qed


end

